theory Spec2Isabelle
  imports Complex_Main "HOL-Library.Word" "HOL-Library.Multiset"
begin

section \<open>The S3 download script\<close>

text \<open>
  A shallow embedding of \<^verbatim>\<open>download_from_s3\<close> of \<^verbatim>\<open>src/s3_download.py\<close>.
  Python integers are \<^typ>\<open>int\<close>, byte strings are lists of 8-bit words, paths, keys and
  messages are strings. The object store, the operating system and the thread scheduler are
  outside the script; what they answer is given by an environment record, and what the
  script does to them is recorded in a world: the regular files on disk, the directories
  the call has made and the trace of the calls made.
\<close>

type_synonym byte = "8 word"
type_synonym bytes = "byte list"

subsection \<open>Exceptions\<close>

text \<open>
  An exception raised inside the \<^verbatim>\<open>try\<close> block is either botocore's
  \<^verbatim>\<open>ClientError\<close>, with \<^verbatim>\<open>e.response['Error']['Code']\<close> and \<^verbatim>\<open>str(e)\<close>, or any
  other subclass of \<^verbatim>\<open>Exception\<close>, with its class name and \<^verbatim>\<open>str(e)\<close>.
  The exceptions that \<^verbatim>\<open>download_from_s3\<close> raises itself are plain
  \<^verbatim>\<open>Exception(message)\<close>; an exception raised by \<^verbatim>\<open>os.remove\<close> inside the second handler
  leaves the function as it is.
\<close>

datatype exn =
    ClientError string string
  | PyException string string

definition ZeroDivisionError :: exn where
  "ZeroDivisionError = PyException ''ZeroDivisionError'' ''integer division or modulo by zero''"

definition ValueError_max_workers :: exn where
  "ValueError_max_workers = PyException ''ValueError'' ''max_workers must be greater than 0''"

text \<open>The operating system's calls raise \<^verbatim>\<open>OSError\<close>, never \<^verbatim>\<open>ClientError\<close>.\<close>

definition OSError :: "string \<Rightarrow> exn" where
  "OSError text = PyException ''OSError'' text"

text \<open>\<^verbatim>\<open>os.remove\<close> of a directory.\<close>

definition IsADirectoryError :: "string \<Rightarrow> exn" where
  "IsADirectoryError path =
     PyException ''IsADirectoryError'' (''[Errno 21] Is a directory: '' @ path)"

text \<open>\<^verbatim>\<open>Exception(message)\<close>, as the script raises it.\<close>

definition Exception :: "string \<Rightarrow> exn" where
  "Exception message = PyException ''Exception'' message"

subsection \<open>The environment and the world\<close>

datatype event =
    HeadObject string string
  | MakeDirs string
  | DownloadFile string string string
  | PoolCreate int
  | GetObject string string int int
  | OpenWrite string
  | Remove string

text \<open>
  \<^item> \<open>bucket\<close> is \<^verbatim>\<open>os.environ.get('RUNPOD_S3_BUCKET')\<close>;
  \<^item> \<open>head_object bucket key\<close> is the \<^verbatim>\<open>ContentLength\<close> of the answer or the exception;
  \<^item> \<open>download_file bucket key\<close> is the whole object as the SDK's transfer writes it to
    the destination, or the exception; the SDK writes to a temporary file that it renames
    on success and removes on failure, so a failed transfer leaves the destination as it was;
  \<^item> \<open>get_object bucket key start end\<close> is the body read for the header
    \<^verbatim>\<open>Range: bytes=start-end\<close>, or the exception;
  \<^item> \<open>makedirs folder\<close>, \<open>open_wb path\<close>, \<open>write_error k\<close> (for the \<open>k\<close>-th call of
    \<^verbatim>\<open>f.write\<close>) and \<open>remove_error path\<close> (for \<^verbatim>\<open>os.remove\<close> of a regular file) are the
    text of the \<^verbatim>\<open>OSError\<close> raised by the operating system, if any;
  \<^item> \<open>is_dir path\<close> says that a directory was at the path before the call; what
    \<open>download_file\<close> and \<open>open_wb\<close> do at such a destination is theirs to say, the
    operating system refusing both;
  \<^item> \<open>completion\<close> is the scheduler's choice: the order in which the chunk tasks run
    their body.
\<close>

record env =
  bucket :: "string option"
  head_object :: "string \<Rightarrow> string \<Rightarrow> exn + int"
  download_file :: "string \<Rightarrow> string \<Rightarrow> exn + bytes"
  get_object :: "string \<Rightarrow> string \<Rightarrow> int \<Rightarrow> int \<Rightarrow> exn + bytes"
  makedirs :: "string \<Rightarrow> string option"
  open_wb :: "string \<Rightarrow> string option"
  write_error :: "nat \<Rightarrow> string option"
  remove_error :: "string \<Rightarrow> string option"
  is_dir :: "string \<Rightarrow> bool"
  completion :: "nat list"

text \<open>
  The disk: \<open>files\<close> maps the path of a regular file to its content, and \<open>dirs\<close> holds
  the paths that name a directory this call has created.
\<close>

record world =
  files :: "string \<rightharpoonup> bytes"
  dirs :: "string set"
  trace :: "event list"

definition log :: "event \<Rightarrow> world \<Rightarrow> world" where
  "log e w = w\<lparr>trace := trace w @ [e]\<rparr>"

subsection \<open>Paths\<close>

text \<open>\<^verbatim>\<open>os.path.basename\<close> and \<^verbatim>\<open>os.path.join\<close> of two components, as in \<^verbatim>\<open>posixpath\<close>.\<close>

definition basename :: "string \<Rightarrow> string" where
  "basename p = rev (takeWhile (\<lambda>c. c \<noteq> CHR ''/'') (rev p))"

definition path_join :: "string \<Rightarrow> string \<Rightarrow> string" where
  "path_join a b =
     (if b \<noteq> [] \<and> hd b = CHR ''/'' then b
      else if a = [] \<or> last a = CHR ''/'' then a @ b
      else a @ ''/'' @ b)"

definition destination_path :: "string \<Rightarrow> string \<Rightarrow> string" where
  "destination_path destination_folder s3_key = path_join destination_folder (basename s3_key)"

text \<open>
  Once the destination folder exists, the destination path names a directory, not a file,
  when the key's base name is empty (the key ends in a slash), \<^verbatim>\<open>.\<close> or \<^verbatim>\<open>..\<close>.
\<close>

definition dir_names :: "string \<Rightarrow> string set" where
  "dir_names folder = {path_join folder [], path_join folder ''.'', path_join folder ''..''}"

definition path_is_dir :: "env \<Rightarrow> world \<Rightarrow> string \<Rightarrow> bool" where
  "path_is_dir E w path = (is_dir E path \<or> path \<in> dirs w)"

subsection \<open>The chunk plan\<close>

text \<open>
  \<^verbatim>\<open>num_chunks = (file_size + chunk_size - 1) // chunk_size\<close>: floor division, which raises
  on a zero divisor. On \<^typ>\<open>int\<close>, \<open>div\<close> rounds towards minus infinity as \<^verbatim>\<open>//\<close> does.
\<close>

definition num_chunks :: "int \<Rightarrow> int \<Rightarrow> exn + int" where
  "num_chunks file_size chunk_size =
     (if chunk_size = 0 then Inl ZeroDivisionError
      else Inr ((file_size + chunk_size - 1) div chunk_size))"

definition start_byte :: "int \<Rightarrow> nat \<Rightarrow> int" where
  "start_byte chunk_size i = int i * chunk_size"

definition end_byte :: "int \<Rightarrow> int \<Rightarrow> nat \<Rightarrow> int" where
  "end_byte file_size chunk_size i =
     min (start_byte chunk_size i + chunk_size - 1) (file_size - 1)"

text \<open>The arguments of one submitted task: \<^verbatim>\<open>(chunk_num, start_byte, end_byte)\<close>.\<close>

definition chunk_task :: "int \<Rightarrow> int \<Rightarrow> nat \<Rightarrow> nat \<times> int \<times> int" where
  "chunk_task file_size chunk_size i =
     (i, start_byte chunk_size i, end_byte file_size chunk_size i)"

text \<open>The tasks in submission order, \<^verbatim>\<open>for i in range(num_chunks)\<close>.\<close>

definition chunk_tasks :: "int \<Rightarrow> int \<Rightarrow> int \<Rightarrow> (nat \<times> int \<times> int) list" where
  "chunk_tasks file_size chunk_size n = map (chunk_task file_size chunk_size) [0..<nat n]"

definition actual_workers :: "int \<Rightarrow> int \<Rightarrow> int" where
  "actual_workers num_workers n = min num_workers n"

subsection \<open>The worker pool\<close>

text \<open>
  The state shared by the tasks: the list \<^verbatim>\<open>parts\<close>, appended to under the lock, and the
  exception stored in the future of each task that raised.
\<close>

record pool =
  parts :: "(nat \<times> bytes) list"
  raised :: "(nat \<times> exn) list"
  pworld :: world

text \<open>
  \<^verbatim>\<open>download_chunk\<close>: one ranged read; on success the pair \<^verbatim>\<open>(chunk_num, data)\<close> is appended
  to \<^verbatim>\<open>parts\<close>, on failure the exception is raised again and ends up in the task's future.
\<close>

definition download_chunk :: "env \<Rightarrow> string \<Rightarrow> string \<Rightarrow> nat \<times> int \<times> int \<Rightarrow> pool \<Rightarrow> pool" where
  "download_chunk E b key t p =
     (case t of (chunk_num, s, e) \<Rightarrow>
        (case get_object E b key s e of
           Inr data \<Rightarrow> p\<lparr>parts := parts p @ [(chunk_num, data)],
                         pworld := log (GetObject b key s e) (pworld p)\<rparr>
         | Inl x \<Rightarrow> p\<lparr>raised := raised p @ [(chunk_num, x)],
                      pworld := log (GetObject b key s e) (pworld p)\<rparr>))"

text \<open>
  Every submitted task runs exactly once, and the pool is left only when all of them have
  finished. The tasks touch the shared state only under the lock, so a run of the pool is
  a run of the task bodies one after the other in some order. The scheduler's list names
  the tasks that finish first; tasks it does not name follow in submission order. Every
  permutation of the tasks is the order of some scheduler.
\<close>

definition completion_order :: "nat \<Rightarrow> nat list \<Rightarrow> nat list" where
  "completion_order n sched =
     (let first = remdups (filter (\<lambda>i. i < n) sched)
      in first @ filter (\<lambda>i. i \<notin> set first) [0..<n])"

definition run_pool :: "env \<Rightarrow> string \<Rightarrow> string \<Rightarrow> int \<Rightarrow> int \<Rightarrow> int \<Rightarrow> world \<Rightarrow> pool" where
  "run_pool E b key file_size chunk_size n w =
     fold (download_chunk E b key)
          (map (chunk_task file_size chunk_size) (completion_order (nat n) (completion E)))
          \<lparr>parts = [], raised = [], pworld = w\<rparr>"

text \<open>\<^verbatim>\<open>for future in futures: future.result()\<close>: the first future, in submission order,
  that holds an exception raises it.\<close>

fun await_all :: "nat list \<Rightarrow> (nat \<times> exn) list \<Rightarrow> exn option" where
  "await_all [] fl = None"
| "await_all (i # rest) fl =
     (case map_of fl i of Some x \<Rightarrow> Some x | None \<Rightarrow> await_all rest fl)"

subsection \<open>Writing the file\<close>

text \<open>\<^verbatim>\<open>for _, data in parts: f.write(data)\<close>, from the \<open>k\<close>-th call of \<^verbatim>\<open>write\<close> on; the
  result is the exception that stopped the loop, if any, and the content written so far.\<close>

fun write_parts :: "env \<Rightarrow> (nat \<times> bytes) list \<Rightarrow> nat \<Rightarrow> bytes \<Rightarrow> exn option \<times> bytes" where
  "write_parts E [] k acc = (None, acc)"
| "write_parts E (p # ps) k acc =
     (case write_error E k of
        Some text \<Rightarrow> (Some (OSError text), acc)
      | None \<Rightarrow> write_parts E ps (Suc k) (acc @ snd p))"

subsection \<open>The body of the \<^verbatim>\<open>try\<close> block\<close>

text \<open>
  Lines 69 to 123: the chunked download. \<^verbatim>\<open>ThreadPoolExecutor\<close> raises \<^verbatim>\<open>ValueError\<close> when
  \<^verbatim>\<open>max_workers\<close> is not positive. Opening the file with mode \<^verbatim>\<open>'wb'\<close> creates or truncates
  it.
\<close>

definition chunked_download ::
  "env \<Rightarrow> string \<Rightarrow> string \<Rightarrow> string \<Rightarrow> int \<Rightarrow> int \<Rightarrow> int \<Rightarrow> world \<Rightarrow> (exn + unit) \<times> world" where
  "chunked_download E b key dest num_workers file_size chunk_size w =
     (case num_chunks file_size chunk_size of
        Inl x \<Rightarrow> (Inl x, w)
      | Inr n \<Rightarrow>
          if actual_workers num_workers n \<le> 0 then (Inl ValueError_max_workers, w)
          else
            let p = run_pool E b key file_size chunk_size n
                      (log (PoolCreate (actual_workers num_workers n)) w)
            in (case await_all [0..<nat n] (raised p) of
                  Some x \<Rightarrow> (Inl x, pworld p)
                | None \<Rightarrow>
                    let sorted_parts = sort_key fst (parts p);
                        w1 = log (OpenWrite dest) (pworld p)
                    in (case open_wb E dest of
                          Some text \<Rightarrow> (Inl (OSError text), w1)
                        | None \<Rightarrow>
                            (case write_parts E sorted_parts 0 [] of
                               (Some x, content) \<Rightarrow> (Inl x, w1\<lparr>files := (files w1)(dest \<mapsto> content)\<rparr>)
                             | (None, content) \<Rightarrow> (Inr (), w1\<lparr>files := (files w1)(dest \<mapsto> content)\<rparr>)))))"

text \<open>Lines 50 to 123. After \<^verbatim>\<open>os.makedirs\<close> the destination folder is a directory.\<close>

definition try_block ::
  "env \<Rightarrow> string \<Rightarrow> string \<Rightarrow> string \<Rightarrow> string \<Rightarrow> int \<Rightarrow> int \<Rightarrow> world \<Rightarrow> (exn + unit) \<times> world" where
  "try_block E b s3_key destination_folder dest num_workers chunk_size_mb w =
     (let w1 = log (HeadObject b s3_key) w
      in case head_object E b s3_key of
           Inl x \<Rightarrow> (Inl x, w1)
         | Inr file_size \<Rightarrow>
             let w2 = log (MakeDirs destination_folder) w1
             in (case makedirs E destination_folder of
                   Some text \<Rightarrow> (Inl (OSError text), w2)
                 | None \<Rightarrow>
                     let w2' = w2\<lparr>dirs := dirs w2 \<union> dir_names destination_folder\<rparr>;
                         chunk_size = chunk_size_mb * 1024 * 1024
                     in if file_size < chunk_size then
                          let w3 = log (DownloadFile b s3_key dest) w2'
                          in (case download_file E b s3_key of
                                Inl x \<Rightarrow> (Inl x, w3)
                              | Inr data \<Rightarrow> (Inr (), w3\<lparr>files := (files w3)(dest \<mapsto> data)\<rparr>))
                        else chunked_download E b s3_key dest num_workers file_size chunk_size w2'))"

subsection \<open>The handlers and the whole function\<close>

text \<open>
  \<^verbatim>\<open>if os.path.exists(destination_path): os.remove(destination_path)\<close>. The path exists
  when a regular file or a directory is there. \<^verbatim>\<open>os.remove\<close> raises when the path is a
  directory, and may raise for a regular file; the result is that exception, if any.
\<close>

definition cleanup :: "env \<Rightarrow> string \<Rightarrow> world \<Rightarrow> exn option \<times> world" where
  "cleanup E dest w =
     (if files w dest \<noteq> None \<or> path_is_dir E w dest then
        let w1 = log (Remove dest) w
        in if path_is_dir E w dest then (Some (IsADirectoryError dest), w1)
           else (case remove_error E dest of
                   Some text \<Rightarrow> (Some (OSError text), w1)
                 | None \<Rightarrow> (None, w1\<lparr>files := (files w1)(dest := None)\<rparr>))
      else (None, w))"

text \<open>
  The result of the function is \<open>Inl x\<close> for the exception \<open>x\<close> that leaves it and \<open>Inr v\<close>
  for a returned value \<open>v\<close>, where \<open>None\<close> is Python's \<^verbatim>\<open>None\<close> and \<open>Some s\<close> a string.
\<close>

text \<open>
  The two \<^verbatim>\<open>except\<close> clauses, lines 125 to 136: \<^verbatim>\<open>ClientError\<close> first, then any other
  \<^verbatim>\<open>Exception\<close>. An exception raised by the cleanup leaves the handler in place of the
  \<^verbatim>\<open>Exception\<close> of line 136, which is not reached.
\<close>

definition except_handlers ::
  "env \<Rightarrow> string \<Rightarrow> string \<Rightarrow> string \<Rightarrow> exn \<Rightarrow> world \<Rightarrow> (exn + string option) \<times> world" where
  "except_handlers E b s3_key dest x w =
     (case x of
        ClientError error_code text \<Rightarrow>
          if error_code = ''404''
          then (Inl (Exception (''File not found in S3: s3://'' @ b @ ''/'' @ s3_key)), w)
          else (Inl (Exception (''S3 error: '' @ text)), w)
      | PyException cls text \<Rightarrow>
          (case cleanup E dest w of
             (Some y, w') \<Rightarrow> (Inl y, w')
           | (None, w') \<Rightarrow> (Inl (Exception (''Failed to download from S3: '' @ text)), w')))"

definition download_from_s3 ::
  "env \<Rightarrow> string \<Rightarrow> string \<Rightarrow> int \<Rightarrow> int \<Rightarrow> world \<Rightarrow> (exn + string option) \<times> world" where
  "download_from_s3 E s3_key destination_folder num_workers chunk_size_mb w =
     (case bucket E of
        None \<Rightarrow> (Inl (Exception ''S3_BUCKET environment variable not set''), w)
      | Some b \<Rightarrow>
          if b = [] then (Inl (Exception ''S3_BUCKET environment variable not set''), w)
          else
            let dest = destination_path destination_folder s3_key
            in (case try_block E b s3_key destination_folder dest num_workers chunk_size_mb w of
                  (Inr u, w') \<Rightarrow> (Inr None, w')
                | (Inl x, w') \<Rightarrow> except_handlers E b s3_key dest x w'))"

section \<open>Vocabulary of the statements\<close>

text \<open>The answer of the store to the ranged read of chunk \<open>i\<close>, and the call's event.\<close>

definition fetch :: "env \<Rightarrow> string \<Rightarrow> string \<Rightarrow> int \<Rightarrow> int \<Rightarrow> nat \<Rightarrow> exn + bytes" where
  "fetch E b key file_size chunk_size i =
     get_object E b key (start_byte chunk_size i) (end_byte file_size chunk_size i)"

definition fetch_event :: "string \<Rightarrow> string \<Rightarrow> int \<Rightarrow> int \<Rightarrow> nat \<Rightarrow> event" where
  "fetch_event b key file_size chunk_size i =
     GetObject b key (start_byte chunk_size i) (end_byte file_size chunk_size i)"

text \<open>The exception of the first failed chunk in submission order, if any chunk failed.\<close>

definition first_failure :: "env \<Rightarrow> string \<Rightarrow> string \<Rightarrow> int \<Rightarrow> int \<Rightarrow> nat \<Rightarrow> exn option" where
  "first_failure E b key file_size chunk_size n =
     (case filter (\<lambda>j. isl (fetch E b key file_size chunk_size j)) [0..<n] of
        [] \<Rightarrow> None
      | j # rest \<Rightarrow> Some (projl (fetch E b key file_size chunk_size j)))"

text \<open>The bytes \<open>s\<close> to \<open>e\<close>, both included, of an object: what a store that holds \<open>obj\<close>
  answers to \<^verbatim>\<open>Range: bytes=s-e\<close>.\<close>

definition byte_range :: "bytes \<Rightarrow> int \<Rightarrow> int \<Rightarrow> bytes" where
  "byte_range obj s e = take (nat (e - s + 1)) (drop (nat s) obj)"

text \<open>An environment for examples: the store holds \<open>obj\<close> under every key and answers
  every request, and the operating system raises no error.\<close>

definition good_env :: "string \<Rightarrow> bytes \<Rightarrow> nat list \<Rightarrow> env" where
  "good_env b obj sched =
     \<lparr>bucket = Some b,
      head_object = (\<lambda>_ _. Inr (int (length obj))),
      download_file = (\<lambda>_ _. Inr obj),
      get_object = (\<lambda>_ _ s e. Inr (byte_range obj s e)),
      makedirs = (\<lambda>_. None),
      open_wb = (\<lambda>_. None),
      write_error = (\<lambda>_. None),
      remove_error = (\<lambda>_. None),
      is_dir = (\<lambda>_. False),
      completion = sched\<rparr>"

text \<open>Worlds for examples: an empty disk, and a disk that already holds a file at the
  destination path of the examples.\<close>

definition empty_world :: world where
  "empty_world = \<lparr>files = Map.empty, dirs = {}, trace = []\<rparr>"

definition old_file_world :: world where
  "old_file_world = \<lparr>files = [''/data/a.bin'' \<mapsto> [1, 2, 3]], dirs = {}, trace = []\<rparr>"

text \<open>Stores for examples: the size lookup is answered with 404 or 403; a store that holds
  an object of 10 MiB and fails the ranged read of chunk 3 (of 10 chunks of 1 MiB) with a
  read timeout or with an error response; an object of 200 MiB; the size lookup fails
  because the store cannot be reached; an object of two chunks of 1 MiB and five more bytes,
  each chunk with bytes of its own.\<close>

definition not_found_env :: env where
  "not_found_env = (good_env ''bucket'' [] [])
     \<lparr>head_object := (\<lambda>_ _. Inl (ClientError ''404'' ''Not Found''))\<rparr>"

definition unreachable_env :: env where
  "unreachable_env = (good_env ''bucket'' [] [])
     \<lparr>head_object := (\<lambda>_ _. Inl (PyException ''EndpointConnectionError''
                                     ''Could not connect to the endpoint URL''))\<rparr>"

definition striped_object :: bytes where
  "striped_object = replicate 1048576 1 @ replicate 1048576 2 @ replicate 5 3"

definition big_object :: bytes where
  "big_object = replicate 10485760 0"

definition chunk3_timeout_env :: env where
  "chunk3_timeout_env = (good_env ''bucket'' big_object [])
     \<lparr>get_object := (\<lambda>_ _ s e. if s = 3145728
                                 then Inl (PyException ''ReadTimeoutError'' ''Read timed out'')
                                 else Inr (byte_range big_object s e))\<rparr>"

definition chunk3_denied_env :: env where
  "chunk3_denied_env = (good_env ''bucket'' big_object [])
     \<lparr>get_object := (\<lambda>_ _ s e. if s = 3145728
                                 then Inl (ClientError ''AccessDenied'' ''Access Denied'')
                                 else Inr (byte_range big_object s e))\<rparr>"

text \<open>The object is deleted from the store while its chunks are read: the read of chunk 3
  is answered with the error code of a missing key for \<^verbatim>\<open>GetObject\<close>.\<close>

definition vanished_env :: env where
  "vanished_env = (good_env ''bucket'' big_object [])
     \<lparr>get_object := (\<lambda>_ _ s e. if s = 3145728
                                 then Inl (ClientError ''NoSuchKey'' ''The specified key does not exist.'')
                                 else Inr (byte_range big_object s e))\<rparr>"

text \<open>The events a call has added to the trace, and the kinds of events.\<close>

definition new_events :: "world \<Rightarrow> world \<Rightarrow> event list" where
  "new_events w w' = drop (length (trace w)) (trace w')"

fun is_pool :: "event \<Rightarrow> bool" where
  "is_pool (PoolCreate k) = True"
| "is_pool e = False"

fun is_whole_fetch :: "event \<Rightarrow> bool" where
  "is_whole_fetch (DownloadFile b key dest) = True"
| "is_whole_fetch e = False"

fun is_ranged_fetch :: "event \<Rightarrow> bool" where
  "is_ranged_fetch (GetObject b key s e) = True"
| "is_ranged_fetch e = False"

text \<open>The events of the handlers: at most the removal of the destination.\<close>

definition handler_events :: "env \<Rightarrow> string \<Rightarrow> exn \<Rightarrow> world \<Rightarrow> event list" where
  "handler_events E dest x w =
     (case x of ClientError c t \<Rightarrow> []
      | PyException c t \<Rightarrow>
          if files w dest \<noteq> None \<or> path_is_dir E w dest then [Remove dest] else [])"

definition object_200mb :: bytes where
  "object_200mb = replicate 209715200 0"

definition forbidden_env :: env where
  "forbidden_env = (good_env ''bucket'' [] [])
     \<lparr>head_object := (\<lambda>_ _. Inl (ClientError ''403'' ''Forbidden''))\<rparr>"

section \<open>The chunk plan is an exact partition\<close>

lemma nc_bounds:
  fixes fs cs :: int
  assumes "0 < cs"
  defines "N \<equiv> (fs + cs - 1) div cs"
  shows "(N - 1) * cs < fs" "fs \<le> N * cs"
proof -
  define r where "r = (fs + cs - 1) mod cs"
  have r: "0 \<le> r" "r < cs" using assms by (simp_all add: r_def)
  have eq: "fs + cs - 1 = N * cs + r"
    unfolding N_def r_def by simp
  show "(N - 1) * cs < fs" using eq r by (simp add: algebra_simps)
  show "fs \<le> N * cs" using eq r by (simp add: algebra_simps)
qed

lemma nc_pos:
  fixes fs cs :: int
  assumes "0 < cs" "cs \<le> fs"
  shows "1 \<le> (fs + cs - 1) div cs"
proof -
  have "cs \<le> fs + cs - 1" using assms by simp
  then have "cs div cs \<le> (fs + cs - 1) div cs" by (rule zdiv_mono1) (use assms in simp)
  then show ?thesis using assms by simp
qed

lemma start_below_size:
  fixes fs cs :: int
  assumes "0 < cs" and "int i < (fs + cs - 1) div cs"
  shows "start_byte cs i < fs"
proof -
  define N where "N = (fs + cs - 1) div cs"
  have "int i \<le> N - 1" using assms(2) by (simp add: N_def)
  then have "int i * cs \<le> (N - 1) * cs" using assms(1) by (intro mult_right_mono) simp_all
  also have "\<dots> < fs" unfolding N_def using nc_bounds(1)[OF assms(1)] .
  finally show ?thesis by (simp add: start_byte_def)
qed

lemma end_byte_inner:
  assumes "0 < cs" and "int (Suc i) < (fs + cs - 1) div cs"
  shows "end_byte fs cs i = start_byte cs (Suc i) - 1"
  using start_below_size[OF assms] by (simp add: end_byte_def start_byte_def algebra_simps)

lemma end_byte_last:
  assumes "0 < cs" and "int (Suc i) = (fs + cs - 1) div cs"
  shows "end_byte fs cs i = fs - 1"
proof -
  have "fs \<le> int (Suc i) * cs" using nc_bounds(2)[OF assms(1), of fs] assms(2) by simp
  then show ?thesis by (simp add: end_byte_def start_byte_def algebra_simps)
qed

lemma end_byte_spec:
  assumes "0 < cs"
  shows "end_byte fs cs i = min ((int i + 1) * cs) fs - 1"
  by (simp add: end_byte_def start_byte_def algebra_simps min_def)

lemma chunk_nonempty:
  assumes "0 < cs" and "int i < (fs + cs - 1) div cs"
  shows "start_byte cs i \<le> end_byte fs cs i"
  using start_below_size[OF assms] assms(1) by (simp add: end_byte_def start_byte_def)

lemma upto_append:
  fixes i j k :: int
  assumes "i \<le> j + 1" "j \<le> k"
  shows "[i..j] @ [j + 1..k] = [i..k]"
proof (cases "i \<le> j")
  case True
  then show ?thesis using assms(2) upto_split2[of i j k] by simp
next
  case False
  then have "i = j + 1" using assms(1) by simp
  then show ?thesis by simp
qed

lemma ranges_prefix:
  assumes "0 < cs" and "int k < (fs + cs - 1) div cs"
  shows "concat (map (\<lambda>i. [start_byte cs i..end_byte fs cs i]) [0..<k]) = [0..start_byte cs k - 1]"
  using assms(2)
proof (induction k)
  case 0
  show ?case by (simp add: start_byte_def)
next
  case (Suc k)
  have e: "end_byte fs cs k = start_byte cs (Suc k) - 1"
    using end_byte_inner[OF assms(1) Suc.prems] .
  have ih: "concat (map (\<lambda>i. [start_byte cs i..end_byte fs cs i]) [0..<k]) = [0..start_byte cs k - 1]"
    using Suc by simp
  have "0 \<le> start_byte cs k" "start_byte cs k \<le> start_byte cs (Suc k)"
    using assms(1) by (simp_all add: start_byte_def algebra_simps)
  then have "[0..start_byte cs k - 1] @ [start_byte cs k - 1 + 1..start_byte cs (Suc k) - 1]
      = [0..start_byte cs (Suc k) - 1]"
    using assms(1) by (intro upto_append) (simp_all add: start_byte_def algebra_simps)
  then show ?case using ih e by simp
qed

lemma ranges_all:
  assumes "0 < cs" and "cs \<le> fs"
  shows "concat (map (\<lambda>i. [start_byte cs i..end_byte fs cs i]) [0..<nat ((fs + cs - 1) div cs)])
         = [0..fs - 1]"
proof -
  define N where "N = (fs + cs - 1) div cs"
  have N: "1 \<le> N" unfolding N_def using nc_pos[OF assms] .
  then obtain k where k: "nat N = Suc k" by (cases "nat N") simp_all
  then have kN: "int (Suc k) = N" using N by linarith
  have lt: "int k < (fs + cs - 1) div cs" using kN by (simp add: N_def)
  have pre: "concat (map (\<lambda>i. [start_byte cs i..end_byte fs cs i]) [0..<k]) = [0..start_byte cs k - 1]"
    using ranges_prefix[OF assms(1) lt] .
  have e: "end_byte fs cs k = fs - 1"
    using end_byte_last[OF assms(1), of k fs] kN by (simp add: N_def)
  have s: "0 \<le> start_byte cs k" "start_byte cs k < fs"
    using assms(1) start_below_size[OF assms(1) lt] by (simp_all add: start_byte_def)
  have "[0..start_byte cs k - 1] @ [start_byte cs k - 1 + 1..fs - 1] = [0..fs - 1]"
    using s by (intro upto_append) simp_all
  then show ?thesis using pre e k by (simp add: N_def)
qed

lemma length_concat_ranges:
  fixes f g :: "'a \<Rightarrow> int"
  assumes "\<And>i. i \<in> set xs \<Longrightarrow> f i \<le> g i"
  shows "int (length (concat (map (\<lambda>i. [f i..g i]) xs))) = (\<Sum>i\<leftarrow>xs. g i - f i + 1)"
  using assms by (induction xs) simp_all

lemma lengths_sum:
  assumes "0 < cs" and "cs \<le> fs"
  shows "(\<Sum>i\<leftarrow>[0..<nat ((fs + cs - 1) div cs)]. end_byte fs cs i - start_byte cs i + 1) = fs"
proof -
  let ?n = "nat ((fs + cs - 1) div cs)"
  have ne: "\<And>i. i \<in> set [0..<?n] \<Longrightarrow> start_byte cs i \<le> end_byte fs cs i"
    using chunk_nonempty[OF assms(1), of _ fs] by simp
  have "(\<Sum>i\<leftarrow>[0..<?n]. end_byte fs cs i - start_byte cs i + 1)
        = int (length (concat (map (\<lambda>i. [start_byte cs i..end_byte fs cs i]) [0..<?n])))"
    using length_concat_ranges[of "[0..<?n]" "start_byte cs" "end_byte fs cs"] ne by simp
  also have "\<dots> = int (length [0..fs - 1])"
    using ranges_all[OF assms] by simp
  finally show ?thesis using assms by simp
qed

lemma nc_ceiling:
  fixes fs cs :: int
  assumes "0 < cs"
  shows "(fs + cs - 1) div cs = \<lceil>real_of_int fs / real_of_int cs\<rceil>"
proof -
  define N where "N = (fs + cs - 1) div cs"
  have b: "(N - 1) * cs < fs" "fs \<le> N * cs"
    unfolding N_def using nc_bounds[OF assms] by blast+
  have c: "0 < real_of_int cs" using assms by simp
  have "real_of_int ((N - 1) * cs) < real_of_int fs" using b(1) by (simp only: of_int_less_iff)
  then have 1: "real_of_int N - 1 < real_of_int fs / real_of_int cs"
    using c by (simp add: pos_less_divide_eq)
  have "real_of_int fs \<le> real_of_int (N * cs)" using b(2) by (simp only: of_int_le_iff)
  then have 2: "real_of_int fs / real_of_int cs \<le> real_of_int N"
    using c by (simp add: pos_divide_le_eq)
  have "\<lceil>real_of_int fs / real_of_int cs\<rceil> = N" using 1 2 by (rule ceiling_unique)
  then show ?thesis by (simp add: N_def)
qed

lemma chunk_plan_facts:
  assumes "0 < chunk_size" and "chunk_size \<le> file_size"
  defines "n \<equiv> \<lceil>real_of_int file_size / real_of_int chunk_size\<rceil>"
  defines "plan \<equiv> chunk_tasks file_size chunk_size n"
  shows "num_chunks file_size chunk_size = Inr n"
    and "length plan = nat n"
    and "map fst plan = [0..<nat n]"
    and "\<forall>i < nat n. plan ! i =
           (i, int i * chunk_size, min ((int i + 1) * chunk_size) file_size - 1)"
    and "\<forall>(i, s, e) \<in> set plan. s \<le> e"
    and "fst (snd (plan ! 0)) = 0"
    and "\<forall>i. Suc i < nat n \<longrightarrow> snd (snd (plan ! i)) + 1 = fst (snd (plan ! Suc i))"
    and "snd (snd (last plan)) = file_size - 1"
    and "concat (map (\<lambda>(i, s, e). [s..e]) plan) = [0..file_size - 1]"
    and "(\<Sum>(i, s, e) \<leftarrow> plan. e - s + 1) = file_size"
proof -
  have n: "n = (file_size + chunk_size - 1) div chunk_size"
    unfolding n_def using nc_ceiling[OF assms(1)] by simp
  have n1: "1 \<le> n" unfolding n using nc_pos[OF assms(1,2)] .
  show "num_chunks file_size chunk_size = Inr n"
    using assms(1) by (simp add: num_chunks_def n)
  show len: "length plan = nat n" by (simp add: plan_def chunk_tasks_def)
  show "map fst plan = [0..<nat n]"
    by (simp add: plan_def chunk_tasks_def chunk_task_def comp_def map_idI)
  have nth: "plan ! i = (i, start_byte chunk_size i, end_byte file_size chunk_size i)"
    if "i < nat n" for i
    using that by (simp add: plan_def chunk_tasks_def chunk_task_def)
  show "\<forall>i < nat n. plan ! i =
           (i, int i * chunk_size, min ((int i + 1) * chunk_size) file_size - 1)"
    using nth end_byte_spec[OF assms(1)] by (simp add: start_byte_def)
  show "\<forall>(i, s, e) \<in> set plan. s \<le> e"
    using chunk_nonempty[OF assms(1), of _ file_size]
    by (auto simp: plan_def chunk_tasks_def chunk_task_def n)
  show "fst (snd (plan ! 0)) = 0"
    using nth[of 0] n1 by (simp add: start_byte_def)
  show "\<forall>i. Suc i < nat n \<longrightarrow> snd (snd (plan ! i)) + 1 = fst (snd (plan ! Suc i))"
  proof (intro allI impI)
    fix i assume i: "Suc i < nat n"
    then have "int (Suc i) < (file_size + chunk_size - 1) div chunk_size"
      unfolding n[symmetric] by linarith
    from end_byte_inner[OF assms(1) this] nth[of i] nth[of "Suc i"] i
    show "snd (snd (plan ! i)) + 1 = fst (snd (plan ! Suc i))" by simp
  qed
  show "snd (snd (last plan)) = file_size - 1"
  proof -
    obtain k where k: "nat n = Suc k" using n1 by (cases "nat n") simp_all
    then have "int (Suc k) = (file_size + chunk_size - 1) div chunk_size"
      unfolding n[symmetric] using n1 by linarith
    from end_byte_last[OF assms(1) this]
    have e: "end_byte file_size chunk_size k = file_size - 1" .
    have "plan \<noteq> []" using len k by auto
    then have "last plan = plan ! k" using len k by (simp add: last_conv_nth)
    then show ?thesis using nth[of k] k e by simp
  qed
  have cv: "map (\<lambda>(i, s, e). f s e) plan
            = map (\<lambda>i. f (start_byte chunk_size i) (end_byte file_size chunk_size i)) [0..<nat n]"
    for f :: "int \<Rightarrow> int \<Rightarrow> 'x"
    by (simp add: plan_def chunk_tasks_def chunk_task_def comp_def)
  show "concat (map (\<lambda>(i, s, e). [s..e]) plan) = [0..file_size - 1]"
    unfolding cv[of "\<lambda>s e. [s..e]"] n using ranges_all[OF assms(1,2)] .
  show "(\<Sum>(i, s, e) \<leftarrow> plan. e - s + 1) = file_size"
    unfolding cv[of "\<lambda>s e. e - s + 1"] n using lengths_sum[OF assms(1,2)] .
qed


text \<open>
  Claim C1. When the chunk size is positive and the object is at least one chunk long, the
  number of chunks is the ceiling of the object size over the chunk size; the submitted
  tasks are indexed \<open>0\<close> to \<open>n - 1\<close>; task \<open>i\<close> covers the inclusive range from
  \<open>i * chunk_size\<close> to \<open>min ((i + 1) * chunk_size) file_size - 1\<close>; no range is empty; the
  first range starts at byte \<open>0\<close>, each range ends just before the next one starts, the last
  one ends at byte \<open>file_size - 1\<close>; the ranges laid end to end are exactly the bytes \<open>0\<close> to
  \<open>file_size - 1\<close>, each once; and the lengths add up to \<open>file_size\<close>.
\<close>

theorem chunk_plan_partition:
  assumes "0 < chunk_size" and "chunk_size \<le> file_size"
  shows "let n = \<lceil>real_of_int file_size / real_of_int chunk_size\<rceil>;
             plan = chunk_tasks file_size chunk_size n
         in num_chunks file_size chunk_size = Inr n
          \<and> length plan = nat n
          \<and> map fst plan = [0..<nat n]
          \<and> (\<forall>i < nat n. plan ! i =
                (i, int i * chunk_size, min ((int i + 1) * chunk_size) file_size - 1))
          \<and> (\<forall>(i, s, e) \<in> set plan. s \<le> e)
          \<and> fst (snd (plan ! 0)) = 0
          \<and> (\<forall>i. Suc i < nat n \<longrightarrow> snd (snd (plan ! i)) + 1 = fst (snd (plan ! Suc i)))
          \<and> snd (snd (last plan)) = file_size - 1
          \<and> concat (map (\<lambda>(i, s, e). [s..e]) plan) = [0..file_size - 1]
          \<and> (\<Sum>(i, s, e) \<leftarrow> plan. e - s + 1) = file_size"
  unfolding Let_def using chunk_plan_facts[OF assms] by (intro conjI)

theorem chunk_plan_partition_witness:
  "(0::int) < 67108864 \<and> (67108864::int) \<le> 209715200
   \<and> num_chunks 209715200 67108864 = Inr 4
   \<and> length (chunk_tasks 209715200 67108864 4) = 4
   \<and> snd (snd (last (chunk_tasks 209715200 67108864 4))) = 209715199
   \<and> concat (map (\<lambda>(i, s, e). [s..e]) (chunk_tasks 209715200 67108864 4)) = [0..209715199]
   \<and> (\<Sum>(i, s, e) \<leftarrow> chunk_tasks 209715200 67108864 4. e - s + 1) = 209715200"
  using chunk_plan_partition [of 67108864 209715200] by (simp add: Let_def)

section \<open>The worker pool, one task after the other\<close>

lemma set_completion_order: "set (completion_order n sched) = {0..<n}"
  by (auto simp: completion_order_def Let_def)

lemma distinct_completion_order: "distinct (completion_order n sched)"
  by (auto simp: completion_order_def Let_def)

lemma mset_completion_order: "mset (completion_order n sched) = mset [0..<n]"
proof -
  have "mset (completion_order n sched) = mset_set (set (completion_order n sched))"
    using distinct_completion_order by (simp add: mset_set_set)
  also have "\<dots> = mset [0..<n]" by (simp add: set_completion_order)
  finally show ?thesis .
qed

lemma sort_completion_order: "sort (completion_order n sched) = [0..<n]"
  by (rule properties_for_sort) (simp_all add: mset_completion_order)

lemma completion_order_perm:
  assumes "mset sched = mset [0..<n]"
  shows "completion_order n sched = sched"
proof -
  have s: "set sched = {0..<n}" using assms by (metis mset_eq_setD set_upt)
  have d: "distinct sched" using assms by (metis distinct_upt mset_eq_imp_distinct_iff)
  have "filter (\<lambda>i. i < n) sched = sched" using s by (intro filter_True) auto
  moreover have "filter (\<lambda>i. i \<notin> set sched) [0..<n] = []" using s by (simp add: filter_empty_conv)
  ultimately show ?thesis using d by (simp add: completion_order_def Let_def)
qed

lemma download_chunk_task:
  "download_chunk E b key (chunk_task fs cs j) p =
     p\<lparr>parts := parts p @ (if isl (fetch E b key fs cs j) then []
                             else [(j, projr (fetch E b key fs cs j))]),
       raised := raised p @ (if isl (fetch E b key fs cs j)
                              then [(j, projl (fetch E b key fs cs j))] else []),
       pworld := (pworld p)\<lparr>trace := trace (pworld p) @ [fetch_event b key fs cs j]\<rparr>\<rparr>"
  by (cases "get_object E b key (start_byte cs j) (end_byte fs cs j)")
     (simp_all add: download_chunk_def chunk_task_def fetch_def fetch_event_def log_def)

lemma fold_download_chunk:
  "fold (download_chunk E b key) (map (chunk_task fs cs) js) p =
     p\<lparr>parts := parts p @ map (\<lambda>i. (i, projr (fetch E b key fs cs i)))
                               (filter (\<lambda>i. \<not> isl (fetch E b key fs cs i)) js),
       raised := raised p @ map (\<lambda>i. (i, projl (fetch E b key fs cs i)))
                                (filter (\<lambda>i. isl (fetch E b key fs cs i)) js),
       pworld := (pworld p)\<lparr>trace := trace (pworld p) @ map (fetch_event b key fs cs) js\<rparr>\<rparr>"
proof (induction js arbitrary: p)
  case Nil
  show ?case by simp
next
  case (Cons j js)
  show ?case by (simp add: Cons download_chunk_task)
qed

lemma await_all_None: "await_all js fl = None \<longleftrightarrow> (\<forall>j \<in> set js. map_of fl j = None)"
  by (induction js) (auto split: option.splits)

lemma await_all_Some: "await_all js fl = Some x \<Longrightarrow> \<exists>j \<in> set js. map_of fl j = Some x"
  by (induction js) (auto split: option.splits)

lemma map_of_tagged:
  "map_of (map (\<lambda>i. (i, g i)) xs) j = (if j \<in> set xs then Some (g j) else None)"
  by (induction xs) auto

lemma insort_key_tagged:
  "insort_key fst (x, g x) (map (\<lambda>i. (i, g i)) ys) = map (\<lambda>i. (i, g i)) (insort x ys)"
  by (induction ys) auto

lemma sort_key_tagged:
  "sort_key fst (map (\<lambda>i. (i::nat, g i)) xs) = map (\<lambda>i. (i, g i)) (sort xs)"
  by (induction xs) (simp_all add: insort_key_tagged)

lemma write_parts_None:
  "write_parts E ps k acc = (None, c) \<Longrightarrow> c = acc @ concat (map snd ps)"
proof (induction ps arbitrary: k acc)
  case Nil
  then show ?case by simp
next
  case (Cons p ps)
  from Cons.prems have "write_parts E ps (Suc k) (acc @ snd p) = (None, c)"
    by (simp split: option.splits)
  from Cons.IH[OF this] show ?case by simp
qed

lemma write_parts_ok:
  "(\<forall>j < length ps. write_error E (k + j) = None) \<Longrightarrow>
   write_parts E ps k acc = (None, acc @ concat (map snd ps))"
proof (induction ps arbitrary: k acc)
  case Nil
  show ?case by simp
next
  case (Cons p ps)
  have 0: "write_error E k = None" using Cons.prems by force
  have "\<forall>j < length ps. write_error E (Suc k + j) = None"
    using Cons.prems by (metis add_Suc_shift length_Cons Suc_less_eq)
  from Cons.IH[OF this] 0 show ?case by simp
qed


lemma await_all_tagged:
  "await_all js (map (\<lambda>i. (i, g i)) xs) =
     (case filter (\<lambda>j. j \<in> set xs) js of [] \<Rightarrow> None | j # rest \<Rightarrow> Some (g j))"
  by (induction js) (simp_all add: map_of_tagged)

lemma run_pool_eq:
  "run_pool E b key fs cs n w =
     \<lparr>parts = map (\<lambda>i. (i, projr (fetch E b key fs cs i)))
                 (filter (\<lambda>i. \<not> isl (fetch E b key fs cs i)) (completion_order (nat n) (completion E))),
      raised = map (\<lambda>i. (i, projl (fetch E b key fs cs i)))
                 (filter (\<lambda>i. isl (fetch E b key fs cs i)) (completion_order (nat n) (completion E))),
      pworld = w\<lparr>trace := trace w @ map (fetch_event b key fs cs) (completion_order (nat n) (completion E))\<rparr>\<rparr>"
  by (simp add: run_pool_def fold_download_chunk)

lemma await_run_pool:
  "await_all [0..<nat n] (raised (run_pool E b key fs cs n w)) = first_failure E b key fs cs (nat n)"
proof -
  have "filter (\<lambda>j. j \<in> set (filter (\<lambda>i. isl (fetch E b key fs cs i)) (completion_order (nat n) (completion E)))) [0..<nat n]
        = filter (\<lambda>j. isl (fetch E b key fs cs j)) [0..<nat n]"
    by (rule filter_cong) (auto simp: set_completion_order)
  then show ?thesis
    by (simp add: run_pool_eq await_all_tagged first_failure_def)
qed

lemma first_failure_None:
  "first_failure E b key fs cs n = None \<longleftrightarrow> (\<forall>i < n. \<not> isl (fetch E b key fs cs i))"
proof -
  have "first_failure E b key fs cs n = None
        \<longleftrightarrow> filter (\<lambda>j. isl (fetch E b key fs cs j)) [0..<n] = []"
    by (simp add: first_failure_def split: list.splits)
  then show ?thesis by (auto simp: filter_empty_conv)
qed

lemma first_failure_Some:
  assumes "first_failure E b key fs cs n = Some x"
  shows "\<exists>j < n. fetch E b key fs cs j = Inl x \<and> (\<forall>i < j. \<not> isl (fetch E b key fs cs i))"
proof -
  from assms obtain j rest where
    f: "filter (\<lambda>j. isl (fetch E b key fs cs j)) [0..<n] = j # rest" and x: "x = projl (fetch E b key fs cs j)"
    by (auto simp: first_failure_def split: list.splits)
  from f have "j \<in> set (filter (\<lambda>j. isl (fetch E b key fs cs j)) [0..<n])" by simp
  then have j: "j < n" "isl (fetch E b key fs cs j)" by auto
  have "\<not> isl (fetch E b key fs cs i)" if "i < j" for i
  proof
    assume "isl (fetch E b key fs cs i)"
    then have "i \<in> set (filter (\<lambda>j. isl (fetch E b key fs cs j)) [0..<n])" using that j by simp
    then have "i \<in> set (j # rest)" using f by simp
    moreover have "sorted (j # rest)" using f by (metis sorted_wrt_filter sorted_upt)
    ultimately show False using that by auto
  qed
  then show ?thesis using j x by (auto simp: isl_def)
qed

lemma sorted_parts_run_pool:
  assumes "\<forall>i < nat n. \<not> isl (fetch E b key fs cs i)"
  shows "sort_key fst (parts (run_pool E b key fs cs n w))
         = map (\<lambda>i. (i, projr (fetch E b key fs cs i))) [0..<nat n]"
proof -
  have "filter (\<lambda>i. \<not> isl (fetch E b key fs cs i)) (completion_order (nat n) (completion E))
        = completion_order (nat n) (completion E)"
    using assms by (intro filter_True) (simp add: set_completion_order)
  then show ?thesis
    by (simp add: run_pool_eq sort_key_tagged sort_completion_order)
qed

lemma pworld_run_pool:
  "pworld (run_pool E b key fs cs n w) =
     w\<lparr>trace := trace w @ map (fetch_event b key fs cs) (completion_order (nat n) (completion E))\<rparr>"
  by (simp add: run_pool_eq)

lemma chunked_download_eq:
  "chunked_download E b key dest nw fs cs w =
    (case num_chunks fs cs of
       Inl x \<Rightarrow> (Inl x, w)
     | Inr n \<Rightarrow>
        if actual_workers nw n \<le> 0 then (Inl ValueError_max_workers, w)
        else
          let w1 = w\<lparr>trace := trace w @ PoolCreate (actual_workers nw n)
                        # map (fetch_event b key fs cs) (completion_order (nat n) (completion E))\<rparr>
          in (case first_failure E b key fs cs (nat n) of
                Some x \<Rightarrow> (Inl x, w1)
              | None \<Rightarrow>
                  let w2 = w1\<lparr>trace := trace w1 @ [OpenWrite dest]\<rparr>
                  in (case open_wb E dest of
                        Some text \<Rightarrow> (Inl (OSError text), w2)
                      | None \<Rightarrow>
                         (case write_parts E (map (\<lambda>i. (i, projr (fetch E b key fs cs i))) [0..<nat n]) 0 [] of
                            (Some x, c) \<Rightarrow> (Inl x, w2\<lparr>files := (files w)(dest \<mapsto> c)\<rparr>)
                          | (None, c) \<Rightarrow> (Inr (), w2\<lparr>files := (files w)(dest \<mapsto> c)\<rparr>)))))"
proof (cases "num_chunks fs cs")
  case (Inl x)
  then show ?thesis by (simp add: chunked_download_def)
next
  case (Inr n)
  show ?thesis
  proof (cases "first_failure E b key fs cs (nat n)")
    case None
    then have "\<forall>i < nat n. \<not> isl (fetch E b key fs cs i)" by (simp add: first_failure_None)
    from sorted_parts_run_pool[OF this] None Inr show ?thesis
      by (simp add: chunked_download_def await_run_pool Let_def log_def pworld_run_pool
               split: option.split prod.split)
  next
    case (Some x)
    with Inr show ?thesis
      by (simp add: chunked_download_def await_run_pool Let_def log_def pworld_run_pool)
  qed
qed


section \<open>The whole function\<close>

subsection \<open>The cleanup and the handlers\<close>

lemma cleanup_cases [case_names absent is_directory refused removed]:
  obtains (absent) "files w dest = None" and "\<not> path_is_dir E w dest"
      and "cleanup E dest w = (None, w)"
    | (is_directory) "path_is_dir E w dest"
      and "cleanup E dest w = (Some (IsADirectoryError dest), w\<lparr>trace := trace w @ [Remove dest]\<rparr>)"
    | (refused) t where "files w dest \<noteq> None" and "\<not> path_is_dir E w dest"
      and "remove_error E dest = Some t"
      and "cleanup E dest w = (Some (OSError t), w\<lparr>trace := trace w @ [Remove dest]\<rparr>)"
    | (removed) "files w dest \<noteq> None" and "\<not> path_is_dir E w dest"
      and "remove_error E dest = None"
      and "cleanup E dest w
           = (None, w\<lparr>trace := trace w @ [Remove dest], files := (files w)(dest := None)\<rparr>)"
proof (cases "path_is_dir E w dest")
  case True
  then show ?thesis by (intro is_directory) (simp_all add: cleanup_def log_def Let_def)
next
  case nd: False
  show ?thesis
  proof (cases "files w dest")
    case None
    with nd show ?thesis by (intro absent) (simp_all add: cleanup_def)
  next
    case (Some c)
    show ?thesis
    proof (cases "remove_error E dest")
      case None
      with nd Some show ?thesis
        by (intro removed) (simp_all add: cleanup_def log_def Let_def)
    next
      case (Some t)
      with nd \<open>files w dest = Some c\<close> show ?thesis
        by (intro refused[of t]) (simp_all add: cleanup_def log_def Let_def)
    qed
  qed
qed

lemma files_cleanup:
  "files (snd (cleanup E dest w))
     = (if fst (cleanup E dest w) = None then (files w)(dest := None) else files w)"
  by (cases rule: cleanup_cases[of w dest E]) auto

lemma dirs_cleanup: "dirs (snd (cleanup E dest w)) = dirs w"
  by (cases rule: cleanup_cases[of w dest E]) auto

lemma trace_cleanup:
  "trace (snd (cleanup E dest w))
     = trace w @ (if files w dest \<noteq> None \<or> path_is_dir E w dest then [Remove dest] else [])"
  by (cases rule: cleanup_cases[of w dest E]) auto

text \<open>The exception that \<^verbatim>\<open>os.remove\<close> raises, if any, comes from the directory at the path
  or from the operating system's refusal to remove the file.\<close>

lemma fst_cleanup_Some:
  assumes "fst (cleanup E dest w) = Some y"
  shows "(y = IsADirectoryError dest \<and> path_is_dir E w dest)
       \<or> (\<exists>t. y = OSError t \<and> remove_error E dest = Some t \<and> files w dest \<noteq> None)"
  using assms by (cases rule: cleanup_cases[of w dest E]) auto

lemma cleanup_cong:
  assumes "files w1 = files w2" and "dirs w1 = dirs w2"
  shows "fst (cleanup E dest w1) = fst (cleanup E dest w2)"
    and "files (snd (cleanup E dest w1)) = files (snd (cleanup E dest w2))"
  using assms by (simp_all add: cleanup_def path_is_dir_def log_def Let_def split: option.split)

lemma except_handlers_PyException:
  "except_handlers E b key dest (PyException c t) w =
     (case fst (cleanup E dest w) of
        Some y \<Rightarrow> Inl y
      | None \<Rightarrow> Inl (Exception (''Failed to download from S3: '' @ t)),
      snd (cleanup E dest w))"
  by (cases "cleanup E dest w") (simp add: except_handlers_def split: option.split)

lemma except_handlers_ClientError:
  "except_handlers E b key dest (ClientError code t) w =
     (Inl (Exception (if code = ''404'' then ''File not found in S3: s3://'' @ b @ ''/'' @ key
                       else ''S3 error: '' @ t)), w)"
  by (simp add: except_handlers_def)

lemma isl_except_handlers: "isl (fst (except_handlers E b key dest x w))"
  by (cases x) (simp_all add: except_handlers_PyException except_handlers_ClientError
                   split: option.split)

lemma fst_except_handlers_Inr [simp]: "fst (except_handlers E b key dest x w) \<noteq> Inr v"
  using isl_except_handlers[of E b key dest x w] by (metis sum.disc(2))

lemma files_except_handlers:
  "files (snd (except_handlers E b key dest x w)) = files w
   \<or> files (snd (except_handlers E b key dest x w)) = (files w)(dest := None)"
  by (cases x) (simp_all add: except_handlers_PyException except_handlers_ClientError files_cleanup)

lemma trace_except_handlers:
  "trace (snd (except_handlers E b key dest x w)) = trace w @ handler_events E dest x w"
  by (cases x)
     (simp_all add: except_handlers_PyException except_handlers_ClientError trace_cleanup
        handler_events_def)

lemma except_handlers_cong:
  assumes "files w1 = files w2" and "dirs w1 = dirs w2"
  shows "fst (except_handlers E b key dest x w1) = fst (except_handlers E b key dest x w2)"
    and "files (snd (except_handlers E b key dest x w1))
         = files (snd (except_handlers E b key dest x w2))"
  using cleanup_cong[OF assms, of E dest] assms(1)
  by (cases x; simp add: except_handlers_PyException except_handlers_ClientError)+

subsection \<open>The body of the try block\<close>

lemma world_update_order [simp]:
  "w\<lparr>trace := t, dirs := d\<rparr> = w\<lparr>dirs := d, trace := t\<rparr>"
  by simp

lemma try_block_eq:
  "try_block E b key folder dest nw mb w =
    (case head_object E b key of
       Inl x \<Rightarrow> (Inl x, w\<lparr>trace := trace w @ [HeadObject b key]\<rparr>)
     | Inr fs \<Rightarrow>
        (case makedirs E folder of
           Some text \<Rightarrow> (Inl (OSError text), w\<lparr>trace := trace w @ [HeadObject b key, MakeDirs folder]\<rparr>)
         | None \<Rightarrow>
            if fs < mb * 1024 * 1024 then
              (case download_file E b key of
                 Inl x \<Rightarrow> (Inl x, w\<lparr>dirs := dirs w \<union> dir_names folder,
                                     trace := trace w @ [HeadObject b key, MakeDirs folder, DownloadFile b key dest]\<rparr>)
               | Inr data \<Rightarrow> (Inr (), w\<lparr>dirs := dirs w \<union> dir_names folder,
                                         trace := trace w @ [HeadObject b key, MakeDirs folder, DownloadFile b key dest],
                                         files := (files w)(dest \<mapsto> data)\<rparr>))
            else chunked_download E b key dest nw fs (mb * 1024 * 1024)
                   (w\<lparr>dirs := dirs w \<union> dir_names folder,
                      trace := trace w @ [HeadObject b key, MakeDirs folder]\<rparr>)))"
  by (simp add: try_block_def Let_def log_def split: sum.split option.split)

lemma dirs_chunked_download:
  "dirs (snd (chunked_download E b key dest nw fs cs w)) = dirs w"
  by (simp add: chunked_download_eq Let_def split: sum.split option.split prod.split)

text \<open>What a run does to the files and what it returns does not depend on the scheduler.\<close>

lemma write_parts_completion [simp]:
  "write_parts (E\<lparr>completion := s\<rparr>) ps k acc = write_parts E ps k acc"
  by (induction ps arbitrary: k acc) (simp_all split: option.split)

lemma fetch_completion [simp]: "fetch (E\<lparr>completion := s\<rparr>) = fetch E"
  by (simp add: fetch_def fun_eq_iff)

lemma first_failure_completion [simp]: "first_failure (E\<lparr>completion := s\<rparr>) = first_failure E"
  by (simp add: first_failure_def fun_eq_iff split: list.split)

lemma cleanup_completion [simp]: "cleanup (E\<lparr>completion := s\<rparr>) = cleanup E"
  by (simp add: cleanup_def path_is_dir_def fun_eq_iff Let_def split: option.split)

lemma except_handlers_completion [simp]:
  "except_handlers (E\<lparr>completion := s\<rparr>) = except_handlers E"
  by (simp add: except_handlers_def fun_eq_iff split: exn.split)

lemma chunked_download_completion:
  "fst (chunked_download (E\<lparr>completion := s\<rparr>) b key dest nw fs cs w)
     = fst (chunked_download E b key dest nw fs cs w)"
  "files (snd (chunked_download (E\<lparr>completion := s\<rparr>) b key dest nw fs cs w))
     = files (snd (chunked_download E b key dest nw fs cs w))"
  by (simp_all add: chunked_download_eq Let_def split: sum.split option.split prod.split)

lemma try_block_completion:
  "fst (try_block (E\<lparr>completion := s\<rparr>) b key folder dest nw mb w)
     = fst (try_block E b key folder dest nw mb w)"
  "files (snd (try_block (E\<lparr>completion := s\<rparr>) b key folder dest nw mb w))
     = files (snd (try_block E b key folder dest nw mb w))"
  "dirs (snd (try_block (E\<lparr>completion := s\<rparr>) b key folder dest nw mb w))
     = dirs (snd (try_block E b key folder dest nw mb w))"
  by (simp_all add: try_block_eq chunked_download_completion dirs_chunked_download
        split: sum.split option.split)

lemma download_from_s3_bucket:
  assumes "bucket E = Some b" and "b \<noteq> []"
  shows "download_from_s3 E key folder nw mb w =
     (case try_block E b key folder (destination_path folder key) nw mb w of
        (Inr u, w') \<Rightarrow> (Inr None, w')
      | (Inl x, w') \<Rightarrow> except_handlers E b key (destination_path folder key) x w')"
  using assms by (simp add: download_from_s3_def Let_def)

lemma download_from_s3_no_bucket:
  assumes "\<not> (\<exists>b. bucket E = Some b \<and> b \<noteq> [])"
  shows "download_from_s3 E key folder nw mb w
         = (Inl (Exception ''S3_BUCKET environment variable not set''), w)"
  using assms by (auto simp: download_from_s3_def split: option.splits)

lemma download_from_s3_completion:
  "fst (download_from_s3 (E\<lparr>completion := s\<rparr>) key folder nw mb w)
     = fst (download_from_s3 E key folder nw mb w)"
  "files (snd (download_from_s3 (E\<lparr>completion := s\<rparr>) key folder nw mb w))
     = files (snd (download_from_s3 E key folder nw mb w))"
proof -
  let ?E = "E\<lparr>completion := s\<rparr>"
  let ?d = "destination_path folder key"
  have "fst (download_from_s3 ?E key folder nw mb w) = fst (download_from_s3 E key folder nw mb w)
      \<and> files (snd (download_from_s3 ?E key folder nw mb w))
          = files (snd (download_from_s3 E key folder nw mb w))"
  proof (cases "\<exists>b. bucket E = Some b \<and> b \<noteq> []")
    case False
    then have "\<not> (\<exists>b. bucket ?E = Some b \<and> b \<noteq> [])" by simp
    from download_from_s3_no_bucket[OF this] download_from_s3_no_bucket[OF False]
    show ?thesis by simp
  next
    case True
    then obtain b where b: "bucket E = Some b" "b \<noteq> []" by blast
    then have b': "bucket ?E = Some b" by simp
    obtain r1 w1 where t1: "try_block ?E b key folder ?d nw mb w = (r1, w1)"
      by (cases "try_block ?E b key folder ?d nw mb w")
    obtain r2 w2 where t2: "try_block E b key folder ?d nw mb w = (r2, w2)"
      by (cases "try_block E b key folder ?d nw mb w")
    from try_block_completion[where E = E and s = s and b = b and key = key and folder = folder
        and dest = ?d and nw = nw and mb = mb and w = w] t1 t2
    have eq: "r1 = r2" "files w1 = files w2" "dirs w1 = dirs w2" by simp_all
    show ?thesis
    proof (cases r2)
      case (Inr u)
      with eq t1 t2 show ?thesis
        by (simp add: download_from_s3_bucket[OF b] download_from_s3_bucket[OF b' b(2)])
    next
      case (Inl x)
      with eq t1 t2 except_handlers_cong[OF eq(2,3), of E b key ?d x] show ?thesis
        by (simp add: download_from_s3_bucket[OF b] download_from_s3_bucket[OF b' b(2)])
    qed
  qed
  then show "fst (download_from_s3 ?E key folder nw mb w) = fst (download_from_s3 E key folder nw mb w)"
    and "files (snd (download_from_s3 ?E key folder nw mb w))
          = files (snd (download_from_s3 E key folder nw mb w))"
    by simp_all
qed


subsection \<open>Reassembly\<close>

lemma bytes_prefix:
  assumes "0 < cs" and "int k < (int (length obj) + cs - 1) div cs"
  shows "concat (map (\<lambda>i. byte_range obj (start_byte cs i) (end_byte (int (length obj)) cs i)) [0..<k])
         = take (nat (start_byte cs k)) obj"
  using assms(2)
proof (induction k)
  case 0
  show ?case by (simp add: start_byte_def)
next
  case (Suc k)
  have e: "end_byte (int (length obj)) cs k = start_byte cs (Suc k) - 1"
    using end_byte_inner[OF assms(1) Suc.prems] .
  have ih: "concat (map (\<lambda>i. byte_range obj (start_byte cs i) (end_byte (int (length obj)) cs i)) [0..<k])
            = take (nat (start_byte cs k)) obj"
    using Suc by simp
  have len: "start_byte cs (Suc k) - 1 - start_byte cs k + 1 = cs"
    by (simp add: start_byte_def algebra_simps)
  have sum: "nat (start_byte cs (Suc k)) = nat (start_byte cs k) + nat cs"
    using assms(1) by (simp add: start_byte_def algebra_simps nat_add_distrib)
  have "byte_range obj (start_byte cs k) (end_byte (int (length obj)) cs k)
        = take (nat cs) (drop (nat (start_byte cs k)) obj)"
    by (simp only: byte_range_def e len)
  then show ?case using ih by (simp add: sum take_add)
qed

lemma bytes_all:
  assumes "0 < cs" and "cs \<le> int (length obj)"
  shows "concat (map (\<lambda>i. byte_range obj (start_byte cs i) (end_byte (int (length obj)) cs i))
                     [0..<nat ((int (length obj) + cs - 1) div cs)]) = obj"
proof -
  define N where "N = (int (length obj) + cs - 1) div cs"
  have N: "1 \<le> N" unfolding N_def using nc_pos[OF assms] .
  then obtain k where k: "nat N = Suc k" by (cases "nat N") simp_all
  then have kN: "int (Suc k) = N" using N by linarith
  have lt: "int k < (int (length obj) + cs - 1) div cs" using kN by (simp add: N_def)
  have pre: "concat (map (\<lambda>i. byte_range obj (start_byte cs i) (end_byte (int (length obj)) cs i)) [0..<k])
             = take (nat (start_byte cs k)) obj"
    using bytes_prefix[OF assms(1) lt] .
  have e: "end_byte (int (length obj)) cs k = int (length obj) - 1"
    using end_byte_last[OF assms(1), of k "int (length obj)"] kN by (simp add: N_def)
  have s: "0 \<le> start_byte cs k" "start_byte cs k < int (length obj)"
    using assms(1) start_below_size[OF assms(1) lt] by (simp_all add: start_byte_def)
  have "byte_range obj (start_byte cs k) (end_byte (int (length obj)) cs k)
        = drop (nat (start_byte cs k)) obj"
    using s by (simp add: byte_range_def e)
  then show ?thesis using pre k by (simp add: N_def)
qed

lemma chunked_download_success:
  assumes "chunked_download E b key dest nw fs cs w = (Inr u, w')" and "cs \<noteq> 0"
  defines "n \<equiv> nat ((fs + cs - 1) div cs)"
  shows "\<forall>i < n. \<not> isl (fetch E b key fs cs i)"
    and "files w' = (files w)(dest \<mapsto> concat (map (\<lambda>i. projr (fetch E b key fs cs i)) [0..<n]))"
proof -
  have nc: "num_chunks fs cs = Inr ((fs + cs - 1) div cs)" using assms(2) by (simp add: num_chunks_def)
  from assms(1) have ff: "first_failure E b key fs cs n = None"
    by (simp add: chunked_download_eq nc n_def Let_def split: if_splits option.splits prod.splits)
  then show "\<forall>i < n. \<not> isl (fetch E b key fs cs i)" by (simp add: first_failure_None)
  from assms(1) ff obtain c where
    wp: "write_parts E (map (\<lambda>i. (i, projr (fetch E b key fs cs i))) [0..<n]) 0 [] = (None, c)"
    and f: "files w' = (files w)(dest \<mapsto> c)"
    by (auto simp: chunked_download_eq nc n_def Let_def split: if_splits option.splits prod.splits)
  from write_parts_None[OF wp] have "c = concat (map (\<lambda>i. projr (fetch E b key fs cs i)) [0..<n])"
    by (simp add: comp_def)
  with f show "files w' = (files w)(dest \<mapsto> concat (map (\<lambda>i. projr (fetch E b key fs cs i)) [0..<n]))"
    by simp
qed

lemma try_block_chunked:
  assumes "head_object E b key = Inr fs" and "makedirs E folder = None"
    and "\<not> fs < mb * 1024 * 1024" and "cs = mb * 1024 * 1024"
  shows "try_block E b key folder dest nw mb w
         = chunked_download E b key dest nw fs cs
             (w\<lparr>dirs := dirs w \<union> dir_names folder,
                trace := trace w @ [HeadObject b key, MakeDirs folder]\<rparr>)"
  using assms by (simp add: try_block_eq)

lemma download_succeeds:
  assumes "bucket E = Some b" and "b \<noteq> []"
    and "head_object E b key = Inr fs"
    and "makedirs E folder = None"
    and "0 < mb" and "mb * 1024 * 1024 \<le> fs" and "1 \<le> nw"
    and "\<forall>i < nat ((fs + mb * 1024 * 1024 - 1) div (mb * 1024 * 1024)).
           \<not> isl (fetch E b key fs (mb * 1024 * 1024) i)"
    and "open_wb E (destination_path folder key) = None"
    and "\<forall>k. write_error E k = None"
  shows "fst (download_from_s3 E key folder nw mb w) = Inr None"
proof -
  define cs where "cs = mb * 1024 * 1024"
  define N where "N = (fs + cs - 1) div cs"
  have cs: "0 < cs" using assms(5) by (simp add: cs_def)
  have le: "cs \<le> fs" using assms(6) by (simp add: cs_def)
  have nc: "num_chunks fs cs = Inr N" using cs by (simp add: num_chunks_def N_def)
  have N: "1 \<le> N" unfolding N_def using nc_pos[OF cs le] .
  have aw: "\<not> actual_workers nw N \<le> 0" using N assms(7) by (simp add: actual_workers_def)
  have ff: "first_failure E b key fs cs (nat N) = None"
    using assms(8) by (simp add: first_failure_None cs_def N_def)
  have wp: "write_parts E ps 0 [] = (None, concat (map snd ps))" for ps
    using write_parts_ok[of ps E 0 "[]"] assms(10) by simp
  have "fst (chunked_download E b key (destination_path folder key) nw fs cs w2) = Inr ()" for w2
    using aw by (simp add: chunked_download_eq nc ff assms(9) wp Let_def)
  moreover have "\<not> fs < mb * 1024 * 1024" using assms(6) by simp
  note try_block_chunked[OF assms(3,4) this cs_def]
  ultimately have "fst (try_block E b key folder (destination_path folder key) nw mb w) = Inr ()"
    by simp
  then obtain w' where "try_block E b key folder (destination_path folder key) nw mb w = (Inr (), w')"
    by (cases "try_block E b key folder (destination_path folder key) nw mb w") simp
  then show ?thesis
    by (simp add: download_from_s3_bucket[OF assms(1,2)])
qed

text \<open>A store whose successful ranged reads return the bytes of the range.\<close>

lemma faithful_fetch:
  assumes "0 < cs" and "cs \<le> int (length obj)"
    and "\<forall>s e data. 0 \<le> s \<and> s \<le> e \<and> e < int (length obj)
           \<and> get_object E b key s e = Inr data \<longrightarrow> data = byte_range obj s e"
    and "i < nat ((int (length obj) + cs - 1) div cs)"
    and "\<not> isl (fetch E b key (int (length obj)) cs i)"
  shows "projr (fetch E b key (int (length obj)) cs i)
         = byte_range obj (start_byte cs i) (end_byte (int (length obj)) cs i)"
proof -
  have lt: "int i < (int (length obj) + cs - 1) div cs" using assms(4) by linarith
  have 1: "0 \<le> start_byte cs i" using assms(1) by (simp add: start_byte_def)
  have 2: "start_byte cs i \<le> end_byte (int (length obj)) cs i"
    using chunk_nonempty[OF assms(1) lt] .
  have 3: "end_byte (int (length obj)) cs i < int (length obj)"
    by (simp add: end_byte_def)
  from assms(5) obtain data where
    d: "get_object E b key (start_byte cs i) (end_byte (int (length obj)) cs i) = Inr data"
    by (cases "get_object E b key (start_byte cs i) (end_byte (int (length obj)) cs i)")
       (simp_all add: fetch_def)
  with assms(3) 1 2 3 have "data = byte_range obj (start_byte cs i) (end_byte (int (length obj)) cs i)"
    by blast
  with d show ?thesis by (simp add: fetch_def)
qed

text \<open>
  Claim C2. The store holds \<open>obj\<close> under the key: the size lookup answers its length, and a
  ranged read that succeeds returns the bytes of its range (a ranged read may also fail).
  The download is chunked. If the download succeeds under one order of completion of the
  chunk tasks, then under every order of completion it succeeds and the destination file is
  \<open>obj\<close>, byte for byte: no chunk is missing, and the parts are written in ascending chunk
  index whatever the order in which they were collected.
\<close>

theorem reassembly_independent_of_completion_order:
  assumes "bucket E = Some b" and "b \<noteq> []"
    and "head_object E b key = Inr (int (length obj))"
    and "\<forall>s e data. 0 \<le> s \<and> s \<le> e \<and> e < int (length obj)
           \<and> get_object E b key s e = Inr data \<longrightarrow> data = byte_range obj s e"
    and "0 < chunk_size_mb" and "chunk_size_mb * 1024 * 1024 \<le> int (length obj)"
    and "fst (download_from_s3 (E\<lparr>completion := sched\<rparr>) key folder num_workers chunk_size_mb w) = Inr v"
  shows "\<forall>sched'.
           fst (download_from_s3 (E\<lparr>completion := sched'\<rparr>) key folder num_workers chunk_size_mb w) = Inr v
         \<and> files (snd (download_from_s3 (E\<lparr>completion := sched'\<rparr>) key folder num_workers chunk_size_mb w))
             = (files w)(destination_path folder key \<mapsto> obj)"
proof -
  define cs where "cs = chunk_size_mb * 1024 * 1024"
  let ?fs = "int (length obj)"
  let ?d = "destination_path folder key"
  let ?n = "nat ((?fs + cs - 1) div cs)"
  let ?w2 = "w\<lparr>dirs := dirs w \<union> dir_names folder,
                trace := trace w @ [HeadObject b key, MakeDirs folder]\<rparr>"
  have cs: "0 < cs" using assms(5) by (simp add: cs_def)
  have le: "cs \<le> ?fs" using assms(6) by (simp add: cs_def)
  have ok: "fst (download_from_s3 E key folder num_workers chunk_size_mb w) = Inr v"
    using assms(7) by (simp add: download_from_s3_completion)
  obtain r w' where tb: "try_block E b key folder ?d num_workers chunk_size_mb w = (r, w')"
    by (cases "try_block E b key folder ?d num_workers chunk_size_mb w")
  from ok tb obtain u where r: "r = Inr u"
    by (cases r) (auto simp: download_from_s3_bucket[OF assms(1,2)])
  have d: "download_from_s3 E key folder num_workers chunk_size_mb w = (Inr None, w')"
    using tb r by (simp add: download_from_s3_bucket[OF assms(1,2)])
  have "try_block E b key folder ?d num_workers chunk_size_mb w =
      (case makedirs E folder of
         Some text \<Rightarrow> (Inl (OSError text), w\<lparr>trace := trace w @ [HeadObject b key, MakeDirs folder]\<rparr>)
       | None \<Rightarrow> chunked_download E b key ?d num_workers ?fs cs ?w2)"
    using assms(3) le by (simp add: try_block_eq cs_def split: option.split)
  with tb r have cd: "chunked_download E b key ?d num_workers ?fs cs ?w2 = (Inr u, w')"
    by (simp split: option.splits)
  from chunked_download_success(2)[OF cd] cs
  have f: "files w' = (files w)(?d \<mapsto> concat (map (\<lambda>i. projr (fetch E b key ?fs cs i)) [0..<?n]))"
    by simp
  from chunked_download_success(1)[OF cd] cs
  have all: "\<forall>i < ?n. \<not> isl (fetch E b key ?fs cs i)" by simp
  have m: "map (\<lambda>i. projr (fetch E b key ?fs cs i)) [0..<?n]
        = map (\<lambda>i. byte_range obj (start_byte cs i) (end_byte ?fs cs i)) [0..<?n]"
    using faithful_fetch[OF cs le assms(4)] all by (intro map_cong) simp_all
  have "files w' = (files w)(?d \<mapsto> obj)"
    unfolding f m bytes_all[OF cs le] ..
  with d ok show ?thesis by (simp add: download_from_s3_completion)
qed

lemma length_striped_object: "int (length striped_object) = 2097157"
  by (simp add: striped_object_def)

lemma dest_example: "destination_path ''/data'' ''models/a.bin'' = ''/data/a.bin''"
  by (simp add: destination_path_def basename_def path_join_def)

lemma parts_run_pool:
  assumes "\<forall>i < nat n. \<not> isl (fetch E b key fs cs i)"
  shows "parts (run_pool E b key fs cs n w)
         = map (\<lambda>i. (i, projr (fetch E b key fs cs i))) (completion_order (nat n) (completion E))"
proof -
  have "filter (\<lambda>i. \<not> isl (fetch E b key fs cs i)) (completion_order (nat n) (completion E))
        = completion_order (nat n) (completion E)"
    using assms by (intro filter_True) (simp add: set_completion_order)
  then show ?thesis by (simp add: run_pool_eq)
qed

lemma upt_3: "[0..<3] = [0, 1, 2]"
  by (simp add: upt_conv_Cons_Cons eval_nat_numeral)

text \<open>
  An object of three chunks whose bytes differ from chunk to chunk; chunk 2 completes first,
  then chunk 0, then chunk 1, and \<^verbatim>\<open>parts\<close> is collected in that order.
\<close>

theorem reassembly_independent_of_completion_order_witness:
  "fst (download_from_s3 (good_env ''bucket'' striped_object [2, 0, 1])
          ''models/a.bin'' ''/data'' 12 1 empty_world) = Inr None
   \<and> files (snd (download_from_s3 (good_env ''bucket'' striped_object [2, 0, 1])
          ''models/a.bin'' ''/data'' 12 1 empty_world))
       = [''/data/a.bin'' \<mapsto> striped_object]
   \<and> map fst (parts (run_pool (good_env ''bucket'' striped_object [2, 0, 1]) ''bucket''
          ''models/a.bin'' 2097157 1048576 3 empty_world)) = [2, 0, 1]"
proof -
  let ?obj = "striped_object"
  let ?E = "good_env ''bucket'' ?obj [2, 0, 1]"
  let ?w = "empty_world"
  have s: "?E\<lparr>completion := sched\<rparr> = good_env ''bucket'' ?obj sched" for sched
    by (simp add: good_env_def)
  have ok: "fst (download_from_s3 (?E\<lparr>completion := [2, 0, 1]\<rparr>) ''models/a.bin'' ''/data'' 12 1 ?w) = Inr None"
    unfolding s
    by (rule download_succeeds[where b = "''bucket''" and fs = 2097157])
       (simp_all add: good_env_def fetch_def length_striped_object)
  have all: "\<forall>sched'.
           fst (download_from_s3 (?E\<lparr>completion := sched'\<rparr>) ''models/a.bin'' ''/data'' 12 1 ?w) = Inr None
         \<and> files (snd (download_from_s3 (?E\<lparr>completion := sched'\<rparr>) ''models/a.bin'' ''/data'' 12 1 ?w))
             = (files ?w)(destination_path ''/data'' ''models/a.bin'' \<mapsto> ?obj)"
    by (rule reassembly_independent_of_completion_order[where b = "''bucket''", OF _ _ _ _ _ _ ok])
       (simp_all add: good_env_def length_striped_object)
  have f: "(files ?w)(destination_path ''/data'' ''models/a.bin'' \<mapsto> ?obj) = [''/data/a.bin'' \<mapsto> ?obj]"
    by (simp add: dest_example empty_world_def)
  note 1 = all[rule_format, of "[2, 0, 1]", unfolded s f]
  have "\<forall>i < nat 3. \<not> isl (fetch ?E ''bucket'' ''models/a.bin'' 2097157 1048576 i)"
    by (simp add: fetch_def good_env_def)
  from parts_run_pool[OF this, of ?w]
  have 2: "map fst (parts (run_pool ?E ''bucket'' ''models/a.bin'' 2097157 1048576 3 ?w)) = [2, 0, 1]"
    by (simp add: comp_def completion_order_def good_env_def upt_3)
  from 1 2 show ?thesis by simp
qed


section \<open>What a run does to the files and to the trace\<close>

lemma write_parts_Some:
  "write_parts E ps k acc = (Some x, c) \<Longrightarrow> \<exists>t. x = OSError t"
proof (induction ps arbitrary: k acc)
  case Nil
  then show ?case by simp
next
  case (Cons p ps)
  show ?case
  proof (cases "write_error E k")
    case None
    with Cons.prems have "write_parts E ps (Suc k) (acc @ snd p) = (Some x, c)" by simp
    then show ?thesis by (rule Cons.IH)
  next
    case (Some t)
    with Cons.prems show ?thesis by auto
  qed
qed

text \<open>What a failed chunked download has done to the files: nothing, unless the failure is
  an \<^verbatim>\<open>OSError\<close> of a write, after the file was opened.\<close>

lemma chunked_download_Inl:
  assumes "chunked_download E b key dest nw fs cs w = (Inl x, w')"
  shows "files w' = files w \<or> (\<exists>c t. files w' = (files w)(dest \<mapsto> c) \<and> x = OSError t)"
proof -
  have wp: "\<exists>t. y = OSError t" if "write_parts E ps 0 [] = (Some y, c)" for ps y c
    using write_parts_Some[OF that] .
  from assms show ?thesis
    by (auto simp: chunked_download_eq Let_def dest!: wp
             split: sum.splits if_splits option.splits prod.splits)
qed

lemma chunked_download_Inr:
  assumes "chunked_download E b key dest nw fs cs w = (Inr u, w')"
  shows "\<exists>c. files w' = (files w)(dest \<mapsto> c)"
  using assms
  by (auto simp: chunked_download_eq Let_def
           split: sum.splits if_splits option.splits prod.splits)

lemma try_block_cases:
  assumes "try_block E b key folder dest nw mb w = (r, w')"
  obtains (early) x where "r = Inl x" and "files w' = files w"
    | (direct) data where "r = Inr ()" and "files w' = (files w)(dest \<mapsto> data)"
    | (chunked) fs cs w2 where "files w2 = files w"
        and "chunked_download E b key dest nw fs cs w2 = (r, w')"
proof (cases "head_object E b key")
  case (Inl x)
  with assms show ?thesis by (intro early[of x]) (auto simp: try_block_eq)
next
  case (Inr fs)
  show ?thesis
  proof (cases "makedirs E folder")
    case (Some t)
    with Inr assms show ?thesis by (intro early[of "OSError t"]) (auto simp: try_block_eq)
  next
    case None
    show ?thesis
    proof (cases "fs < mb * 1024 * 1024")
      case True
      show ?thesis
      proof (cases "download_file E b key")
        case (Inl x)
        with True None Inr assms show ?thesis
          by (intro early[of x]) (auto simp: try_block_eq)
      next
        case (Inr data)
        with True None \<open>head_object E b key = Inr fs\<close> assms show ?thesis
          by (intro direct[of data]) (auto simp: try_block_eq)
      qed
    next
      case False
      with None Inr assms show ?thesis
        by (intro chunked[of "w\<lparr>dirs := dirs w \<union> dir_names folder,
                                trace := trace w @ [HeadObject b key, MakeDirs folder]\<rparr>"
                             fs "mb * 1024 * 1024"])
           (auto simp: try_block_eq)
    qed
  qed
qed

lemma try_block_Inl:
  assumes "try_block E b key folder dest nw mb w = (Inl x, w')"
  shows "files w' = files w \<or> (\<exists>c t. files w' = (files w)(dest \<mapsto> c) \<and> x = OSError t)"
  using assms
proof (cases rule: try_block_cases)
  case (chunked fs cs w2)
  from chunked_download_Inl[OF chunked(2)] chunked(1) show ?thesis by auto
qed auto

lemma try_block_Inr:
  assumes "try_block E b key folder dest nw mb w = (Inr u, w')"
  shows "\<exists>c. files w' = (files w)(dest \<mapsto> c)"
  using assms
proof (cases rule: try_block_cases)
  case (chunked fs cs w2)
  from chunked_download_Inr[OF chunked(2)] chunked(1) show ?thesis by auto
qed auto

lemma new_events_append: "trace w' = trace w @ evs \<Longrightarrow> new_events w w' = evs"
  by (simp add: new_events_def)

text \<open>The try block only adds events, and never a removal.\<close>

lemma chunked_download_trace:
  "\<exists>evs. trace (snd (chunked_download E b key dest nw fs cs w)) = trace w @ evs
         \<and> (\<forall>d. Remove d \<notin> set evs)"
  by (auto simp: chunked_download_eq Let_def fetch_event_def
           split: sum.split option.split prod.split)

lemma try_block_trace:
  "\<exists>evs. trace (snd (try_block E b key folder dest nw mb w)) = trace w @ evs
         \<and> (\<forall>d. Remove d \<notin> set evs)"
proof -
  have c: "\<exists>evs. trace (snd (chunked_download E b key dest nw fs cs w2)) = trace w @ evs
                \<and> (\<forall>d. Remove d \<notin> set evs)"
    if "trace w2 = trace w @ [HeadObject b key, MakeDirs folder]" for fs cs w2
  proof -
    from chunked_download_trace[of E b key dest nw fs cs w2] obtain evs where
      "trace (snd (chunked_download E b key dest nw fs cs w2)) = trace w2 @ evs"
      "\<forall>d. Remove d \<notin> set evs" by blast
    then show ?thesis
      using that by (intro exI[of _ "[HeadObject b key, MakeDirs folder] @ evs"]) simp
  qed
  show ?thesis
    by (simp add: try_block_eq c split: sum.split option.split)
qed

text \<open>The errors of the script differ from each other and from those of \<^verbatim>\<open>os.remove\<close>.\<close>

lemma Exception_eq [simp]: "Exception m = Exception m' \<longleftrightarrow> m = m'"
  by (simp add: Exception_def)

lemma Exception_neq [simp]:
  "Exception m \<noteq> IsADirectoryError p" "Exception m \<noteq> OSError t"
  "IsADirectoryError p \<noteq> Exception m" "OSError t \<noteq> Exception m"
  by (simp_all add: Exception_def IsADirectoryError_def OSError_def)

lemma message_neq [simp]:
  "''S3_BUCKET environment variable not set'' \<noteq> ''Failed to download from S3: '' @ t"
  "''File not found in S3: s3://'' @ b @ ''/'' @ key \<noteq> ''Failed to download from S3: '' @ t"
  "''S3 error: '' @ t' \<noteq> ''Failed to download from S3: '' @ t"
  "''Failed to download from S3: '' @ t \<noteq> ''S3_BUCKET environment variable not set''"
  "''Failed to download from S3: '' @ t \<noteq> ''File not found in S3: s3://'' @ b @ ''/'' @ key"
  "''Failed to download from S3: '' @ t \<noteq> ''S3 error: '' @ t'"
  by simp_all

lemma client_error_message:
  "(\<exists>b'. (if c = ''404'' then ''File not found in S3: s3://'' @ b @ ''/'' @ key else ''S3 error: '' @ t)
          = ''File not found in S3: s3://'' @ b' @ ''/'' @ key)
   \<or> (\<exists>t'. (if c = ''404'' then ''File not found in S3: s3://'' @ b @ ''/'' @ key else ''S3 error: '' @ t)
          = ''S3 error: '' @ t')"
proof (cases "c = ''404''")
  case True
  have "\<exists>b'. ''File not found in S3: s3://'' @ b @ ''/'' @ key
            = ''File not found in S3: s3://'' @ b' @ ''/'' @ key" by (rule exI[of _ b]) (rule refl)
  then show ?thesis unfolding if_P[OF True] by (rule disjI1)
next
  case False
  have "\<exists>t'. ''S3 error: '' @ t = ''S3 error: '' @ t'" by (rule exI[of _ t]) (rule refl)
  then show ?thesis unfolding if_not_P[OF False] by (rule disjI2)
qed

text \<open>
  Claim C3, as amended. A failed download ends in one of three ways. The generic handler ran
  and its cleanup did not raise: the error is \<open>Failed to download from S3\<close>, no file is left
  at the destination path and every other path is as before the call. Or the failure is the
  missing bucket or a \<^verbatim>\<open>ClientError\<close>: no cleanup runs and the files are exactly as they were
  before the call, as this call had not written to the disk. Or \<^verbatim>\<open>os.remove\<close> raised inside
  the generic handler, because the destination is a directory or the removal was refused:
  its exception leaves the function and nothing is removed, so that the files are as before
  the call, up to what this call wrote at the destination.
\<close>

theorem failed_download_files:
  assumes "fst (download_from_s3 E key folder nw mb w) = Inl x"
  shows "((\<exists>t. x = Exception (''Failed to download from S3: '' @ t))
          \<and> files (snd (download_from_s3 E key folder nw mb w))
              = (files w)(destination_path folder key := None))
       \<or> ((x = Exception ''S3_BUCKET environment variable not set''
            \<or> (\<exists>b. x = Exception (''File not found in S3: s3://'' @ b @ ''/'' @ key))
            \<or> (\<exists>t. x = Exception (''S3 error: '' @ t)))
          \<and> files (snd (download_from_s3 E key folder nw mb w)) = files w)
       \<or> ((x = IsADirectoryError (destination_path folder key)
            \<or> (\<exists>t. x = OSError t \<and> remove_error E (destination_path folder key) = Some t))
          \<and> Remove (destination_path folder key)
              \<in> set (new_events w (snd (download_from_s3 E key folder nw mb w)))
          \<and> (files (snd (download_from_s3 E key folder nw mb w)) = files w
             \<or> (\<exists>c. files (snd (download_from_s3 E key folder nw mb w))
                     = (files w)(destination_path folder key \<mapsto> c))))"
proof (cases "\<exists>b. bucket E = Some b \<and> b \<noteq> []")
  case False
  from download_from_s3_no_bucket[OF this, of key folder nw mb w] assms
  have "x = Exception ''S3_BUCKET environment variable not set''"
    and "snd (download_from_s3 E key folder nw mb w) = w" by auto
  then show ?thesis by simp
next
  case True
  then obtain b where b: "bucket E = Some b" "b \<noteq> []" by blast
  let ?d = "destination_path folder key"
  let ?D = "download_from_s3 E key folder nw mb w"
  obtain r w' where tb: "try_block E b key folder ?d nw mb w = (r, w')"
    by (cases "try_block E b key folder ?d nw mb w")
  from assms tb obtain y where r: "r = Inl y"
    by (cases r) (simp_all add: download_from_s3_bucket[OF b])
  have d: "?D = except_handlers E b key ?d y w'"
    using tb r by (simp add: download_from_s3_bucket[OF b])
  from try_block_Inl[OF tb[unfolded r]]
  have f: "files w' = files w \<or> (\<exists>c t. files w' = (files w)(?d \<mapsto> c) \<and> y = OSError t)" .
  from try_block_trace[of E b key folder ?d nw mb w] tb obtain evs where
    evs: "trace w' = trace w @ evs" by auto
  show ?thesis
  proof (cases y)
    case (ClientError c t)
    with f have fw: "files w' = files w" by (auto simp: OSError_def)
    have dd: "?D = (Inl (Exception (if c = ''404'' then ''File not found in S3: s3://'' @ b @ ''/'' @ key
                                     else ''S3 error: '' @ t)), w')"
      unfolding d ClientError except_handlers_ClientError ..
    from assms have x: "x = Exception (if c = ''404'' then ''File not found in S3: s3://'' @ b @ ''/'' @ key
                                     else ''S3 error: '' @ t)"
      unfolding dd by simp
    have "files (snd ?D) = files w" unfolding dd using fw by simp
    moreover from client_error_message[of c b key t]
    have "(\<exists>b. x = Exception (''File not found in S3: s3://'' @ b @ ''/'' @ key))
          \<or> (\<exists>t. x = Exception (''S3 error: '' @ t))"
      unfolding x Exception_eq .
    ultimately show ?thesis by blast
  next
    case (PyException c t)
    note d' = d[unfolded PyException except_handlers_PyException]
    show ?thesis
    proof (cases "fst (cleanup E ?d w')")
      case None
      then have "files (snd ?D) = (files w')(?d := None)" by (simp add: d' files_cleanup)
      moreover from f have "(files w')(?d := None) = (files w)(?d := None)" by auto
      moreover from None assms have "x = Exception (''Failed to download from S3: '' @ t)"
        by (simp add: d')
      ultimately show ?thesis by auto
    next
      case (Some z)
      then have x: "x = z" using assms by (simp add: d')
      from Some have fs: "files (snd ?D) = files w'" by (simp add: d' files_cleanup)
      from fst_cleanup_Some[OF Some]
      have z: "z = IsADirectoryError ?d \<or> (\<exists>t. z = OSError t \<and> remove_error E ?d = Some t)"
        and ex: "files w' ?d \<noteq> None \<or> path_is_dir E w' ?d" by auto
      have "trace (snd ?D) = trace w @ evs @ [Remove ?d]"
        using ex by (simp add: d' trace_cleanup evs)
      from new_events_append[OF this] have "Remove ?d \<in> set (new_events w (snd ?D))" by simp
      with z x fs f show ?thesis by auto
    qed
  qed
qed

text \<open>
  Claim C10, as amended. When a download fails with the generic error
  \<open>Failed to download from S3\<close> (the try block failed with an exception other than
  \<^verbatim>\<open>ClientError\<close>, and \<^verbatim>\<open>os.remove\<close>, if called, did not raise), the cleanup handler has
  deleted whatever regular file was at the destination path and nothing else; a file that
  was there before the call has been removed by \<^verbatim>\<open>os.remove\<close>, also when this call never
  opened it. When a download fails for the missing bucket or with a \<^verbatim>\<open>ClientError\<close> (not found
  or another error of the store), no cleanup has run: \<^verbatim>\<open>os.remove\<close> is not called and the
  files are as they were before the call. When a download fails with the exception of
  \<^verbatim>\<open>os.remove\<close> (the destination is a directory, or the removal was refused), the handler
  has called \<^verbatim>\<open>os.remove\<close> and nothing was deleted: the files are as before the call, up
  to what this call wrote at the destination.
\<close>

theorem generic_failure_removes_destination:
  assumes "fst (download_from_s3 E key folder nw mb w) = Inl x"
  shows "((\<exists>t. x = Exception (''Failed to download from S3: '' @ t)) \<longrightarrow>
            files (snd (download_from_s3 E key folder nw mb w))
              = (files w)(destination_path folder key := None)
          \<and> (files w (destination_path folder key) \<noteq> None
               \<longrightarrow> Remove (destination_path folder key)
                     \<in> set (new_events w (snd (download_from_s3 E key folder nw mb w)))))
       \<and> ((x = Exception ''S3_BUCKET environment variable not set''
            \<or> (\<exists>b. x = Exception (''File not found in S3: s3://'' @ b @ ''/'' @ key))
            \<or> (\<exists>t. x = Exception (''S3 error: '' @ t))) \<longrightarrow>
            files (snd (download_from_s3 E key folder nw mb w)) = files w
          \<and> Remove (destination_path folder key)
              \<notin> set (new_events w (snd (download_from_s3 E key folder nw mb w))))
       \<and> ((x = IsADirectoryError (destination_path folder key) \<or> (\<exists>t. x = OSError t)) \<longrightarrow>
            Remove (destination_path folder key)
              \<in> set (new_events w (snd (download_from_s3 E key folder nw mb w)))
          \<and> (files (snd (download_from_s3 E key folder nw mb w)) = files w
             \<or> (\<exists>c. files (snd (download_from_s3 E key folder nw mb w))
                     = (files w)(destination_path folder key \<mapsto> c))))"
proof (cases "\<exists>b. bucket E = Some b \<and> b \<noteq> []")
  case False
  from download_from_s3_no_bucket[OF this, of key folder nw mb w] assms
  have "x = Exception ''S3_BUCKET environment variable not set''"
    and "snd (download_from_s3 E key folder nw mb w) = w" by auto
  then show ?thesis by (simp add: new_events_def)
next
  case True
  then obtain b where b: "bucket E = Some b" "b \<noteq> []" by blast
  let ?d = "destination_path folder key"
  let ?D = "download_from_s3 E key folder nw mb w"
  obtain r w' where tb: "try_block E b key folder ?d nw mb w = (r, w')"
    by (cases "try_block E b key folder ?d nw mb w")
  from assms tb obtain y where r: "r = Inl y"
    by (cases r) (simp_all add: download_from_s3_bucket[OF b])
  have d: "?D = except_handlers E b key ?d y w'"
    using tb r by (simp add: download_from_s3_bucket[OF b])
  from try_block_Inl[OF tb[unfolded r]]
  have f: "files w' = files w \<or> (\<exists>c t. files w' = (files w)(?d \<mapsto> c) \<and> y = OSError t)" .
  from try_block_trace[of E b key folder ?d nw mb w] tb obtain evs where
    evs: "trace w' = trace w @ evs" "\<forall>d. Remove d \<notin> set evs" by auto
  show ?thesis
  proof (cases y)
    case (ClientError c t)
    with f have fw: "files w' = files w" by (auto simp: OSError_def)
    have "trace (snd ?D) = trace w @ evs"
      by (simp add: d ClientError except_handlers_ClientError evs)
    from new_events_append[OF this] evs(2) have nr: "Remove ?d \<notin> set (new_events w (snd ?D))" by simp
    have dd: "?D = (Inl (Exception (if c = ''404'' then ''File not found in S3: s3://'' @ b @ ''/'' @ key
                                     else ''S3 error: '' @ t)), w')"
      unfolding d ClientError except_handlers_ClientError ..
    from assms have x: "x = Exception (if c = ''404'' then ''File not found in S3: s3://'' @ b @ ''/'' @ key
                                     else ''S3 error: '' @ t)"
      unfolding dd by simp
    have nf: "\<not> (\<exists>t'. x = Exception (''Failed to download from S3: '' @ t'))"
      unfolding x by (cases "c = ''404''") simp_all
    have no: "\<not> (x = IsADirectoryError ?d \<or> (\<exists>t. x = OSError t))"
      unfolding x by simp
    have "files (snd ?D) = files w" unfolding dd using fw by simp
    with nr nf no show ?thesis by blast
  next
    case (PyException c t)
    note d' = d[unfolded PyException except_handlers_PyException]
    show ?thesis
    proof (cases "fst (cleanup E ?d w')")
      case None
      then have x: "x = Exception (''Failed to download from S3: '' @ t)"
        using assms by (simp add: d')
      from None have "files (snd ?D) = (files w')(?d := None)" by (simp add: d' files_cleanup)
      moreover from f have "(files w')(?d := None) = (files w)(?d := None)" by auto
      ultimately have 1: "files (snd ?D) = (files w)(?d := None)" by simp
      have 2: "Remove ?d \<in> set (new_events w (snd ?D))" if "files w ?d \<noteq> None"
      proof -
        from that f have "files w' ?d \<noteq> None" by auto
        then have "trace (snd ?D) = trace w @ evs @ [Remove ?d]"
          by (simp add: d' trace_cleanup evs)
        from new_events_append[OF this] show ?thesis by simp
      qed
      have nb: "\<not> (x = Exception ''S3_BUCKET environment variable not set''
            \<or> (\<exists>b. x = Exception (''File not found in S3: s3://'' @ b @ ''/'' @ key))
            \<or> (\<exists>t. x = Exception (''S3 error: '' @ t)))"
        unfolding x by simp
      have no: "\<not> (x = IsADirectoryError ?d \<or> (\<exists>t. x = OSError t))"
        unfolding x by simp
      from 1 2 nb no show ?thesis by blast
    next
      case (Some z)
      then have "x = z" using assms by (simp add: d')
      with fst_cleanup_Some[OF Some]
      have "x = IsADirectoryError ?d \<or> (\<exists>t. x = OSError t)"
        and ex: "files w' ?d \<noteq> None \<or> path_is_dir E w' ?d" by blast+
      then have n1: "\<not> (\<exists>t. x = Exception (''Failed to download from S3: '' @ t))"
        and n2: "\<not> (x = Exception ''S3_BUCKET environment variable not set''
            \<or> (\<exists>b. x = Exception (''File not found in S3: s3://'' @ b @ ''/'' @ key))
            \<or> (\<exists>t. x = Exception (''S3 error: '' @ t)))"
        by auto
      from Some have fs: "files (snd ?D) = files w'" by (simp add: d' files_cleanup)
      with f have 1: "files (snd ?D) = files w \<or> (\<exists>c. files (snd ?D) = (files w)(?d \<mapsto> c))"
        by auto
      have "trace (snd ?D) = trace w @ evs @ [Remove ?d]"
        using ex by (simp add: d' trace_cleanup evs)
      from new_events_append[OF this] have 2: "Remove ?d \<in> set (new_events w (snd ?D))" by simp
      from n1 n2 1 2 show ?thesis by blast
    qed
  qed
qed


section \<open>Examples of failed runs\<close>

lemma dirs_example [simp]:
  "''/data/a.bin'' \<notin> dir_names ''/data''"
  by (simp add: dir_names_def path_join_def)

lemma length_big_object: "int (length big_object) = 10485760"
  by (simp add: big_object_def)

lemma upt_10: "[0..<10] = [0, 1, 2, 3, 4, 5, 6, 7, 8, 9]"
  by (simp add: upt_conv_Cons_Cons eval_nat_numeral)

text \<open>
  Claim C3 as stated fails: the size lookup answers 404, the download fails, and the file
  that was at the destination before the call remains on disk.
\<close>

theorem failed_download_keeps_old_file:
  "fst (download_from_s3 not_found_env ''models/a.bin'' ''/data'' 12 64 old_file_world)
     = Inl (Exception ''File not found in S3: s3://bucket/models/a.bin'')
   \<and> files (snd (download_from_s3 not_found_env ''models/a.bin'' ''/data'' 12 64 old_file_world))
        ''/data/a.bin'' = Some [1, 2, 3]"
  by (simp add: download_from_s3_def try_block_def except_handlers_def not_found_env_def
        good_env_def old_file_world_def log_def Let_def)

lemma chunk3_timeout_first_failure:
  "first_failure chunk3_timeout_env ''bucket'' ''models/a.bin'' 10485760 1048576 10
     = Some (PyException ''ReadTimeoutError'' ''Read timed out'')"
  by (simp add: first_failure_def fetch_def chunk3_timeout_env_def good_env_def
        start_byte_def end_byte_def upt_10)

lemma chunk3_timeout_run:
  "fst (download_from_s3 chunk3_timeout_env ''models/a.bin'' ''/data'' 12 1 old_file_world)
     = Inl (Exception ''Failed to download from S3: Read timed out'')"
proof -
  have b: "bucket chunk3_timeout_env = Some ''bucket''" "''bucket'' \<noteq> []"
    by (simp_all add: chunk3_timeout_env_def good_env_def)
  have h: "head_object chunk3_timeout_env ''bucket'' ''models/a.bin'' = Inr 10485760"
    "makedirs chunk3_timeout_env ''/data'' = None"
    "is_dir chunk3_timeout_env p = False" "remove_error chunk3_timeout_env p = None" for p
    by (simp_all add: chunk3_timeout_env_def good_env_def length_big_object)
  show ?thesis
    by (simp add: download_from_s3_bucket[OF b] try_block_eq h chunked_download_eq
          num_chunks_def actual_workers_def chunk3_timeout_first_failure
          except_handlers_def cleanup_def path_is_dir_def old_file_world_def dest_example
          log_def Let_def)
qed

section \<open>The direct and the chunked download, in full\<close>

lemma handler_events_filter [simp]:
  "filter is_pool (handler_events E dest x w) = []"
  "filter is_whole_fetch (handler_events E dest x w) = []"
  "filter is_ranged_fetch (handler_events E dest x w) = []"
  "OpenWrite d \<notin> set (handler_events E dest x w)"
  by (simp_all add: handler_events_def split: exn.split)

lemma fetch_events_filter [simp]:
  "filter is_pool (map (fetch_event b key fs cs) js) = []"
  "filter is_whole_fetch (map (fetch_event b key fs cs) js) = []"
  "filter is_ranged_fetch (map (fetch_event b key fs cs) js) = map (fetch_event b key fs cs) js"
  "OpenWrite d \<notin> set (map (fetch_event b key fs cs) js)"
  by (induction js) (simp_all add: fetch_event_def)

text \<open>The direct download, in full.\<close>

lemma download_direct:
  assumes "bucket E = Some b" and "b \<noteq> []"
    and "head_object E b key = Inr fs"
    and "makedirs E folder = None"
    and "fs < mb * 1024 * 1024"
  shows "download_from_s3 E key folder nw mb w =
    (let dest = destination_path folder key;
         w3 = w\<lparr>dirs := dirs w \<union> dir_names folder,
                trace := trace w @ [HeadObject b key, MakeDirs folder, DownloadFile b key dest]\<rparr>
     in case download_file E b key of
          Inr data \<Rightarrow> (Inr None, w3\<lparr>files := (files w)(dest \<mapsto> data)\<rparr>)
        | Inl x \<Rightarrow> except_handlers E b key dest x w3)"
  using assms
  by (simp add: download_from_s3_bucket[OF assms(1,2)] try_block_eq Let_def split: sum.split)

text \<open>The chunked download, in full.\<close>

lemma download_chunked:
  assumes "bucket E = Some b" and "b \<noteq> []"
    and "head_object E b key = Inr fs"
    and "makedirs E folder = None"
    and "\<not> fs < mb * 1024 * 1024"
    and "cs = mb * 1024 * 1024"
    and "num_chunks fs cs = Inr n"
    and "0 < actual_workers nw n"
  shows "download_from_s3 E key folder nw mb w =
    (let dest = destination_path folder key;
         w1 = w\<lparr>dirs := dirs w \<union> dir_names folder,
                trace := trace w @ [HeadObject b key, MakeDirs folder, PoolCreate (actual_workers nw n)]
                     @ map (fetch_event b key fs cs) (completion_order (nat n) (completion E))\<rparr>
     in case first_failure E b key fs cs (nat n) of
          Some x \<Rightarrow> except_handlers E b key dest x w1
        | None \<Rightarrow>
            let w2 = w1\<lparr>trace := trace w1 @ [OpenWrite dest]\<rparr>
            in (case open_wb E dest of
                  Some text \<Rightarrow> except_handlers E b key dest (OSError text) w2
                | None \<Rightarrow>
                   (case write_parts E (map (\<lambda>i. (i, projr (fetch E b key fs cs i))) [0..<nat n]) 0 [] of
                      (Some x, c) \<Rightarrow> except_handlers E b key dest x (w2\<lparr>files := (files w)(dest \<mapsto> c)\<rparr>)
                    | (None, c) \<Rightarrow> (Inr None, w2\<lparr>files := (files w)(dest \<mapsto> c)\<rparr>))))"
proof -
  note tb = try_block_chunked[OF assms(3,4,5,6), where dest = "destination_path folder key"
      and nw = nw and w = w]
  show ?thesis
    using assms(8)
    by (simp add: download_from_s3_bucket[OF assms(1,2)] tb chunked_download_eq assms(7) Let_def
             split: option.split prod.split)
qed

text \<open>
  Claim C4. When the object is smaller than the chunk size, the bucket is configured and the
  size lookup and the directory creation succeed, the call makes exactly one whole-object
  fetch, creates no worker pool and makes no ranged read; when that fetch succeeds the call
  returns and the destination file holds what was fetched (nothing, for an object of size 0).
\<close>

theorem direct_mode_single_fetch:
  assumes "bucket E = Some b" and "b \<noteq> []"
    and "head_object E b key = Inr file_size"
    and "makedirs E folder = None"
    and "file_size < chunk_size_mb * 1024 * 1024"
  shows "filter is_whole_fetch (new_events w (snd (download_from_s3 E key folder num_workers chunk_size_mb w)))
           = [DownloadFile b key (destination_path folder key)]
       \<and> filter is_ranged_fetch (new_events w (snd (download_from_s3 E key folder num_workers chunk_size_mb w))) = []
       \<and> filter is_pool (new_events w (snd (download_from_s3 E key folder num_workers chunk_size_mb w))) = []
       \<and> (\<forall>data. download_file E b key = Inr data \<longrightarrow>
            fst (download_from_s3 E key folder num_workers chunk_size_mb w) = Inr None
          \<and> files (snd (download_from_s3 E key folder num_workers chunk_size_mb w))
              = (files w)(destination_path folder key \<mapsto> data))"
proof -
  let ?d = "destination_path folder key"
  let ?D = "download_from_s3 E key folder num_workers chunk_size_mb w"
  let ?w3 = "w\<lparr>dirs := dirs w \<union> dir_names folder,
                trace := trace w @ [HeadObject b key, MakeDirs folder, DownloadFile b key ?d]\<rparr>"
  show ?thesis
  proof (cases "download_file E b key")
    case (Inr data)
    then have "?D = (Inr None, ?w3\<lparr>files := (files w)(?d \<mapsto> data)\<rparr>)"
      by (simp add: download_direct[OF assms] Let_def)
    then show ?thesis using Inr by (simp add: new_events_def)
  next
    case (Inl x)
    then have "?D = except_handlers E b key ?d x ?w3"
      by (simp add: download_direct[OF assms] Let_def)
    then have "trace (snd ?D) = trace w @ [HeadObject b key, MakeDirs folder, DownloadFile b key ?d]
                 @ handler_events E ?d x ?w3"
      by (simp add: trace_except_handlers)
    from new_events_append[OF this] Inl show ?thesis by simp
  qed
qed

theorem direct_mode_single_fetch_witness:
  "fst (download_from_s3 (good_env ''bucket'' [] []) ''models/a.bin'' ''/data'' 12 64 empty_world) = Inr None
   \<and> files (snd (download_from_s3 (good_env ''bucket'' [] []) ''models/a.bin'' ''/data'' 12 64 empty_world))
       = [''/data/a.bin'' \<mapsto> []]
   \<and> filter is_whole_fetch (new_events empty_world
        (snd (download_from_s3 (good_env ''bucket'' [] []) ''models/a.bin'' ''/data'' 12 64 empty_world)))
       = [DownloadFile ''bucket'' ''models/a.bin'' ''/data/a.bin'']
   \<and> filter is_ranged_fetch (new_events empty_world
        (snd (download_from_s3 (good_env ''bucket'' [] []) ''models/a.bin'' ''/data'' 12 64 empty_world))) = []"
  using direct_mode_single_fetch[where E = "good_env ''bucket'' [] []" and b = "''bucket''"
          and key = "''models/a.bin''" and file_size = 0 and folder = "''/data''"
          and chunk_size_mb = 64 and w = empty_world and num_workers = 12]
  by (simp add: good_env_def dest_example empty_world_def)

text \<open>
  Claim C5. In a chunked download with at least one requested worker, the worker pool is
  created once, with \<open>min num_workers n\<close> workers for \<open>n\<close> chunks: at least one worker and
  never more workers than chunks.
\<close>

theorem worker_count_clamped:
  assumes "bucket E = Some b" and "b \<noteq> []"
    and "head_object E b key = Inr file_size"
    and "makedirs E folder = None"
    and "0 < chunk_size_mb" and "chunk_size_mb * 1024 * 1024 \<le> file_size"
    and "1 \<le> num_workers"
    and "num_chunks file_size (chunk_size_mb * 1024 * 1024) = Inr n"
  shows "filter is_pool (new_events w (snd (download_from_s3 E key folder num_workers chunk_size_mb w)))
           = [PoolCreate (min num_workers n)]
       \<and> min num_workers n \<le> n \<and> 1 \<le> min num_workers n"
proof -
  define cs where "cs = chunk_size_mb * 1024 * 1024"
  let ?d = "destination_path folder key"
  let ?D = "download_from_s3 E key folder num_workers chunk_size_mb w"
  let ?k = "actual_workers num_workers n"
  let ?pre = "[HeadObject b key, MakeDirs folder, PoolCreate ?k]
                @ map (fetch_event b key file_size cs) (completion_order (nat n) (completion E))"
  have cs: "0 < cs" using assms(5) by (simp add: cs_def)
  have le: "cs \<le> file_size" using assms(6) by (simp add: cs_def)
  have nc: "num_chunks file_size cs = Inr n" using assms(8) by (simp add: cs_def)
  then have n: "n = (file_size + cs - 1) div cs" using cs by (simp add: num_chunks_def)
  have n1: "1 \<le> n" unfolding n using nc_pos[OF cs le] .
  have k: "0 < ?k" "?k = min num_workers n" using n1 assms(7) by (simp_all add: actual_workers_def)
  have nlt: "\<not> file_size < chunk_size_mb * 1024 * 1024" using assms(6) by simp
  note form = download_chunked[OF assms(1,2,3,4) nlt cs_def nc k(1), where w = w]
  have "\<exists>tail. trace (snd ?D) = trace w @ ?pre @ tail \<and> filter is_pool tail = []"
    by (simp add: form Let_def trace_except_handlers split: option.split prod.split)
  then obtain tail where t: "trace (snd ?D) = trace w @ ?pre @ tail" "filter is_pool tail = []"
    by blast
  from new_events_append[OF t(1)] t(2) have "filter is_pool (new_events w (snd ?D)) = [PoolCreate ?k]"
    by simp
  then show ?thesis using k n1 by simp
qed

theorem worker_count_clamped_witness:
  "filter is_pool (new_events empty_world
      (snd (download_from_s3 (good_env ''bucket'' object_200mb []) ''models/a.bin'' ''/data'' 100 64 empty_world)))
     = [PoolCreate 4]
   \<and> num_chunks 209715200 (64 * 1024 * 1024) = Inr 4"
proof -
  have nc: "num_chunks 209715200 (64 * 1024 * 1024) = Inr 4" by (simp add: num_chunks_def)
  have "filter is_pool (new_events empty_world
      (snd (download_from_s3 (good_env ''bucket'' object_200mb []) ''models/a.bin'' ''/data'' 100 64 empty_world)))
     = [PoolCreate (min 100 4)] \<and> min (100::int) 4 \<le> 4 \<and> (1::int) \<le> min 100 4"
    by (rule worker_count_clamped[where b = "''bucket''" and file_size = 209715200, OF _ _ _ _ _ _ _ nc])
       (simp_all add: good_env_def object_200mb_def)
  then show ?thesis using nc by simp
qed


section \<open>Validation, error mapping, return value and the order of effects\<close>

text \<open>Chunk 3 of 10 fails with a read timeout; a file was at the destination before the call.\<close>

theorem failed_download_files_witness:
  "fst (download_from_s3 chunk3_timeout_env ''models/a.bin'' ''/data'' 12 1 old_file_world)
     = Inl (Exception ''Failed to download from S3: Read timed out'')
   \<and> files (snd (download_from_s3 chunk3_timeout_env ''models/a.bin'' ''/data'' 12 1 old_file_world))
       = Map.empty"
  using failed_download_files[OF chunk3_timeout_run] chunk3_timeout_run
  by (simp add: dest_example old_file_world_def)

lemma chunk3_denied_first_failure:
  "first_failure chunk3_denied_env ''bucket'' ''models/a.bin'' 10485760 1048576 10
     = Some (ClientError ''AccessDenied'' ''Access Denied'')"
  by (simp add: first_failure_def fetch_def chunk3_denied_env_def good_env_def
        start_byte_def end_byte_def upt_10)

text \<open>
  Claim C10 as stated fails: chunk 3 of 10 is refused with a \<^verbatim>\<open>ClientError\<close>, the download
  fails after the destination path was computed, no cleanup runs and the file that was at
  the destination before the call is still there.
\<close>

theorem client_error_keeps_old_file:
  "fst (download_from_s3 chunk3_denied_env ''models/a.bin'' ''/data'' 12 1 old_file_world)
     = Inl (Exception ''S3 error: Access Denied'')
   \<and> files (snd (download_from_s3 chunk3_denied_env ''models/a.bin'' ''/data'' 12 1 old_file_world))
        ''/data/a.bin'' = Some [1, 2, 3]"
proof -
  have b: "bucket chunk3_denied_env = Some ''bucket''" "''bucket'' \<noteq> []"
    by (simp_all add: chunk3_denied_env_def good_env_def)
  have h: "head_object chunk3_denied_env ''bucket'' ''models/a.bin'' = Inr 10485760"
    "makedirs chunk3_denied_env ''/data'' = None"
    by (simp_all add: chunk3_denied_env_def good_env_def length_big_object)
  show ?thesis
    by (simp add: download_from_s3_bucket[OF b] try_block_eq h chunked_download_eq
          num_chunks_def actual_workers_def chunk3_denied_first_failure
          except_handlers_def Let_def old_file_world_def)
qed

lemma zero_chunk_size_run:
  "fst (download_from_s3 (good_env ''bucket'' [1, 2, 3, 4, 5] []) ''models/a.bin'' ''/data'' 12 0
          old_file_world)
     = Inl (Exception ''Failed to download from S3: integer division or modulo by zero'')"
  by (simp add: download_from_s3_def try_block_def chunked_download_def num_chunks_def
        except_handlers_def cleanup_def path_is_dir_def good_env_def ZeroDivisionError_def
        log_def Let_def old_file_world_def dest_example)

text \<open>The chunk size is 0 and nothing is written, yet the file that was at the destination
  before the call is removed.\<close>

theorem generic_failure_removes_destination_witness:
  "fst (download_from_s3 (good_env ''bucket'' [1, 2, 3, 4, 5] []) ''models/a.bin'' ''/data'' 12 0 old_file_world)
     = Inl (Exception ''Failed to download from S3: integer division or modulo by zero'')
   \<and> files (snd (download_from_s3 (good_env ''bucket'' [1, 2, 3, 4, 5] []) ''models/a.bin'' ''/data'' 12 0
        old_file_world)) = Map.empty
   \<and> Remove ''/data/a.bin'' \<in> set (new_events old_file_world
        (snd (download_from_s3 (good_env ''bucket'' [1, 2, 3, 4, 5] [])
        ''models/a.bin'' ''/data'' 12 0 old_file_world)))
   \<and> OpenWrite ''/data/a.bin'' \<notin> set (trace (snd (download_from_s3 (good_env ''bucket'' [1, 2, 3, 4, 5] [])
        ''models/a.bin'' ''/data'' 12 0 old_file_world)))"
proof -
  have "OpenWrite ''/data/a.bin'' \<notin> set (trace (snd (download_from_s3 (good_env ''bucket'' [1, 2, 3, 4, 5] [])
        ''models/a.bin'' ''/data'' 12 0 old_file_world)))"
    by (simp add: download_from_s3_def try_block_def chunked_download_def num_chunks_def
        except_handlers_def good_env_def ZeroDivisionError_def log_def Let_def cleanup_def
        path_is_dir_def old_file_world_def dest_example)
  then show ?thesis
    using generic_failure_removes_destination[OF zero_chunk_size_run] zero_chunk_size_run
    by (simp add: dest_example old_file_world_def)
qed

lemma nonpositive_chunks:
  fixes fs cs :: int
  assumes "cs < 0" and "2 \<le> fs"
  shows "(fs + cs - 1) div cs \<le> 0"
proof (cases "0 \<le> fs + cs - 1")
  case True
  then show ?thesis using assms(1) by (rule div_nonneg_neg_le0)
next
  case False
  then have "fs + cs - 1 \<le> 0" "cs < fs + cs - 1" using assms(2) by simp_all
  then have "(fs + cs - 1) div cs = 0" by (rule div_neg_neg_trivial)
  then show ?thesis by simp
qed

text \<open>
  Claim C6, as amended. The chunk size is not validated. With the bucket configured, the size
  lookup and the directory creation done, a chunk size of zero, or a negative chunk size for
  an object of at least two bytes, makes the download fail after the \<^verbatim>\<open>head_object\<close> call to
  the store, in the generic handler. The handler calls \<^verbatim>\<open>os.remove\<close> when a file or a
  directory is at the destination path. When that does not raise, the error is the generic
  \<open>Failed to download from S3\<close>, carrying the text of the \<^verbatim>\<open>ZeroDivisionError\<close> or of the
  pool's \<^verbatim>\<open>ValueError\<close>, and no file is left at the destination; when the destination is a
  directory (the key ends in a slash), or the removal of the file is refused, the error is
  the one of \<^verbatim>\<open>os.remove\<close> and the files are as before the call.
\<close>

theorem nonpositive_chunk_size_fails_after_size_lookup:
  assumes "bucket E = Some b" and "b \<noteq> []"
    and "head_object E b key = Inr file_size" and "0 \<le> file_size"
    and "makedirs E folder = None"
    and "chunk_size_mb \<le> 0" and "chunk_size_mb = 0 \<or> 2 \<le> file_size"
  shows "let dest = destination_path folder key;
             message = ''Failed to download from S3: '' @
                  (if chunk_size_mb = 0 then ''integer division or modulo by zero''
                   else ''max_workers must be greater than 0'');
             directory = (is_dir E dest \<or> dest \<in> dirs w \<or> dest \<in> dir_names folder);
             result = download_from_s3 E key folder num_workers chunk_size_mb w
         in new_events w (snd result)
              = [HeadObject b key, MakeDirs folder] @
                (if files w dest \<noteq> None \<or> directory then [Remove dest] else [])
          \<and> fst result
              = Inl (if directory then IsADirectoryError dest
                     else if files w dest = None then Exception message
                     else (case remove_error E dest of
                             Some t \<Rightarrow> OSError t
                           | None \<Rightarrow> Exception message))
          \<and> files (snd result)
              = (if directory \<or> (files w dest \<noteq> None \<and> remove_error E dest \<noteq> None)
                 then files w else (files w)(dest := None))"
proof -
  define cs where "cs = chunk_size_mb * 1024 * 1024"
  let ?d = "destination_path folder key"
  let ?w2 = "w\<lparr>dirs := dirs w \<union> dir_names folder,
                trace := trace w @ [HeadObject b key, MakeDirs folder]\<rparr>"
  let ?x = "if chunk_size_mb = 0 then ZeroDivisionError else ValueError_max_workers"
  let ?m = "if chunk_size_mb = 0 then ''integer division or modulo by zero''
            else ''max_workers must be greater than 0''"
  have cs: "cs \<le> 0" "cs = 0 \<longleftrightarrow> chunk_size_mb = 0" using assms(6) by (simp_all add: cs_def)
  have nlt: "\<not> file_size < chunk_size_mb * 1024 * 1024" using assms(4,6) by simp
  note tb = try_block_chunked[OF assms(3,5) nlt cs_def, where dest = ?d and nw = num_workers and w = w]
  have cd: "chunked_download E b key ?d num_workers file_size cs ?w2 = (Inl ?x, ?w2)"
  proof (cases "chunk_size_mb = 0")
    case True
    then show ?thesis using cs(2) by (simp add: chunked_download_def num_chunks_def)
  next
    case False
    then have neg: "cs < 0" and fs: "2 \<le> file_size" using cs assms(7) by auto
    have "(file_size + cs - 1) div cs \<le> 0" using nonpositive_chunks[OF neg fs] .
    then have "actual_workers num_workers ((file_size + cs - 1) div cs) \<le> 0"
      by (simp add: actual_workers_def)
    then show ?thesis using False neg by (simp add: chunked_download_def num_chunks_def)
  qed
  have x: "?x = PyException (if chunk_size_mb = 0 then ''ZeroDivisionError'' else ''ValueError'') ?m"
    by (simp add: ZeroDivisionError_def ValueError_max_workers_def)
  have d: "download_from_s3 E key folder num_workers chunk_size_mb w
           = (case fst (cleanup E ?d ?w2) of
                Some y \<Rightarrow> Inl y
              | None \<Rightarrow> Inl (Exception (''Failed to download from S3: '' @ ?m)),
              snd (cleanup E ?d ?w2))"
    unfolding download_from_s3_bucket[OF assms(1,2)] tb cd
    by (simp only: prod.case sum.case x except_handlers_PyException)
  have dir: "path_is_dir E ?w2 ?d \<longleftrightarrow> is_dir E ?d \<or> ?d \<in> dirs w \<or> ?d \<in> dir_names folder"
    by (auto simp: path_is_dir_def)
  show ?thesis
    unfolding Let_def d
    by (cases rule: cleanup_cases[of ?w2 ?d E])
       (auto simp: dir new_events_def)
qed

lemma dest_slash: "destination_path ''/data'' ''models/'' = ''/data/''"
  by (simp add: destination_path_def basename_def path_join_def)

text \<open>The key ends in a slash, so that the destination path is the destination folder: the
  handler calls \<^verbatim>\<open>os.remove\<close> on the directory. And a negative chunk size for an object of
  10 MiB, with a file at the destination.\<close>

theorem nonpositive_chunk_size_fails_after_size_lookup_witness:
  "fst (download_from_s3 (good_env ''bucket'' big_object []) ''models/'' ''/data'' 12 0 empty_world)
     = Inl (IsADirectoryError ''/data/'')
   \<and> new_events empty_world
        (snd (download_from_s3 (good_env ''bucket'' big_object []) ''models/'' ''/data'' 12 0 empty_world))
     = [HeadObject ''bucket'' ''models/'', MakeDirs ''/data'', Remove ''/data/'']
   \<and> fst (download_from_s3 (good_env ''bucket'' big_object []) ''models/a.bin'' ''/data'' 12 (- 1) old_file_world)
     = Inl (Exception ''Failed to download from S3: max_workers must be greater than 0'')
   \<and> new_events old_file_world
        (snd (download_from_s3 (good_env ''bucket'' big_object []) ''models/a.bin'' ''/data'' 12 (- 1) old_file_world))
     = [HeadObject ''bucket'' ''models/a.bin'', MakeDirs ''/data'', Remove ''/data/a.bin'']"
  using nonpositive_chunk_size_fails_after_size_lookup[where E = "good_env ''bucket'' big_object []"
      and b = "''bucket''" and key = "''models/''" and file_size = 10485760
      and folder = "''/data''" and chunk_size_mb = 0 and num_workers = 12 and w = empty_world]
    nonpositive_chunk_size_fails_after_size_lookup[where E = "good_env ''bucket'' big_object []"
      and b = "''bucket''" and key = "''models/a.bin''" and file_size = 10485760
      and folder = "''/data''" and chunk_size_mb = "- 1" and num_workers = 12 and w = old_file_world]
  by (simp add: good_env_def length_big_object dest_example dest_slash old_file_world_def
        empty_world_def dir_names_def path_join_def Let_def)

text \<open>
  Claim C6 as stated fails: with chunk size 0 the store is asked for the object's size
  before anything fails, and the error is the generic one of a division by zero.
\<close>

theorem zero_chunk_size_reaches_the_store:
  "fst (download_from_s3 (good_env ''bucket'' [1, 2, 3, 4, 5] []) ''models/a.bin'' ''/data'' 12 0 empty_world)
     = Inl (Exception ''Failed to download from S3: integer division or modulo by zero'')
   \<and> trace (snd (download_from_s3 (good_env ''bucket'' [1, 2, 3, 4, 5] []) ''models/a.bin'' ''/data'' 12 0
        empty_world))
     = [HeadObject ''bucket'' ''models/a.bin'', MakeDirs ''/data'']"
  by (simp add: download_from_s3_def try_block_def chunked_download_def num_chunks_def
        except_handlers_def good_env_def ZeroDivisionError_def log_def Let_def cleanup_def
        path_is_dir_def empty_world_def dest_example)

text \<open>
  With a negative chunk size and an object of size 0 the chunk count is 1: the pool is
  created and one ranged read is made, for the range from byte 0 to a negative byte. What
  happens then is the store's answer; with a store that answers with no bytes the download
  succeeds.
\<close>

lemma negative_chunk_size_empty_object:
  "fst (download_from_s3 (good_env ''bucket'' [] []) ''models/a.bin'' ''/data'' 12 (- 1) empty_world)
     = Inr None
   \<and> GetObject ''bucket'' ''models/a.bin'' 0 (- 1048577)
       \<in> set (trace (snd (download_from_s3 (good_env ''bucket'' [] []) ''models/a.bin'' ''/data'' 12 (- 1)
                           empty_world)))"
proof -
  have b: "bucket (good_env ''bucket'' [] []) = Some ''bucket''" "''bucket'' \<noteq> []"
    by (simp_all add: good_env_def)
  have ff: "first_failure (good_env ''bucket'' [] []) ''bucket'' ''models/a.bin'' 0 (- 1048576) (Suc 0) = None"
    by (simp add: first_failure_def fetch_def good_env_def)
  have o: "open_wb (good_env ''bucket'' [] []) p = None"
    "write_error (good_env ''bucket'' [] []) k = None"
    "head_object (good_env ''bucket'' [] []) ''bucket'' ''models/a.bin'' = Inr 0"
    "makedirs (good_env ''bucket'' [] []) ''/data'' = None" for p k
    by (simp_all add: good_env_def)
  show ?thesis
    by (simp add: download_from_s3_bucket[OF b] try_block_eq o chunked_download_eq
          num_chunks_def actual_workers_def ff Let_def fetch_event_def start_byte_def end_byte_def
          completion_order_def)
qed


lemma vanished_first_failure:
  "first_failure vanished_env ''bucket'' ''models/a.bin'' 10485760 1048576 10
     = Some (ClientError ''NoSuchKey'' ''The specified key does not exist.'')"
  by (simp add: first_failure_def fetch_def vanished_env_def good_env_def
        start_byte_def end_byte_def upt_10)

lemma vanished_try_block:
  "fst (try_block vanished_env ''bucket'' ''models/a.bin'' ''/data'' ''/data/a.bin'' 12 1 old_file_world)
     = Inl (ClientError ''NoSuchKey'' ''The specified key does not exist.'')"
proof -
  have h: "head_object vanished_env ''bucket'' ''models/a.bin'' = Inr 10485760"
    "makedirs vanished_env ''/data'' = None"
    by (simp_all add: vanished_env_def good_env_def length_big_object)
  show ?thesis
    by (simp add: try_block_eq h chunked_download_eq num_chunks_def actual_workers_def
          vanished_first_failure Let_def)
qed

text \<open>
  Claim C7 as stated fails, twice. The store cannot be reached when the size is looked up:
  the failure is not a \<^verbatim>\<open>ClientError\<close>, it surfaces as the generic \<open>Failed to download from S3\<close>
  and not as \<open>S3 error\<close>, and the handler has removed the file that was at the destination.
  And the store reports that the key does not exist when a chunk is read, with the code
  \<^verbatim>\<open>NoSuchKey\<close>: the failure surfaces as \<open>S3 error\<close>, not as \<open>File not found in S3\<close>.
\<close>

theorem backend_failures_not_all_store_errors:
  "fst (download_from_s3 unreachable_env ''models/a.bin'' ''/data'' 12 64 old_file_world)
     = Inl (Exception ''Failed to download from S3: Could not connect to the endpoint URL'')
   \<and> files old_file_world ''/data/a.bin'' = Some [1, 2, 3]
   \<and> files (snd (download_from_s3 unreachable_env ''models/a.bin'' ''/data'' 12 64 old_file_world))
        ''/data/a.bin'' = None
   \<and> fst (download_from_s3 vanished_env ''models/a.bin'' ''/data'' 12 1 old_file_world)
     = Inl (Exception ''S3 error: The specified key does not exist.'')"
proof -
  have b: "bucket vanished_env = Some ''bucket''" "''bucket'' \<noteq> []"
    by (simp_all add: vanished_env_def good_env_def)
  have h: "head_object vanished_env ''bucket'' ''models/a.bin'' = Inr 10485760"
    "makedirs vanished_env ''/data'' = None"
    by (simp_all add: vanished_env_def good_env_def length_big_object)
  have 1: "fst (download_from_s3 vanished_env ''models/a.bin'' ''/data'' 12 1 old_file_world)
     = Inl (Exception ''S3 error: The specified key does not exist.'')"
    by (simp add: download_from_s3_bucket[OF b] try_block_eq h chunked_download_eq
          num_chunks_def actual_workers_def vanished_first_failure
          except_handlers_def Let_def)
  have 2: "fst (download_from_s3 unreachable_env ''models/a.bin'' ''/data'' 12 64 old_file_world)
     = Inl (Exception ''Failed to download from S3: Could not connect to the endpoint URL'')"
    "files (snd (download_from_s3 unreachable_env ''models/a.bin'' ''/data'' 12 64 old_file_world))
        ''/data/a.bin'' = None"
    by (simp_all add: download_from_s3_def try_block_def except_handlers_def cleanup_def
          path_is_dir_def unreachable_env_def good_env_def log_def Let_def old_file_world_def
          dest_example)
  from 1 2 show ?thesis by (simp add: old_file_world_def)
qed

text \<open>
  Claim C7, as amended. The handlers go by the class of the exception, whichever call of the
  try block raised it. A \<^verbatim>\<open>ClientError\<close> with the code 404 surfaces as \<open>File not found in S3\<close>
  and one with any other code, \<^verbatim>\<open>NoSuchKey\<close> included, as \<open>S3 error\<close>; the two messages are
  never equal; no cleanup runs and the files are as before the call. Any other exception,
  such as a store that cannot be reached, surfaces as neither of the two: the generic
  handler runs its cleanup, and the error is \<open>Failed to download from S3\<close>, no file being
  left at the destination, or the exception of \<^verbatim>\<open>os.remove\<close>. When it is the size lookup that
  fails, the lookup is the only call made before the handler.
\<close>

theorem not_found_distinguished:
  assumes "bucket E = Some b" and "b \<noteq> []"
    and "try_block E b key folder (destination_path folder key) num_workers chunk_size_mb w
           = (Inl y, w')"
  shows "(\<forall>code message. y = ClientError code message \<longrightarrow>
            download_from_s3 E key folder num_workers chunk_size_mb w
              = (Inl (Exception (if code = ''404'' then ''File not found in S3: s3://'' @ b @ ''/'' @ key
                                 else ''S3 error: '' @ message)), w')
          \<and> files w' = files w
          \<and> (\<forall>d. Remove d \<notin> set (new_events w w')))
       \<and> (\<forall>message'. ''File not found in S3: s3://'' @ b @ ''/'' @ key \<noteq> ''S3 error: '' @ message')
       \<and> (\<forall>cls message. y = PyException cls message \<longrightarrow>
            fst (download_from_s3 E key folder num_workers chunk_size_mb w)
              \<noteq> Inl (Exception (''File not found in S3: s3://'' @ b @ ''/'' @ key))
          \<and> (\<forall>message'. fst (download_from_s3 E key folder num_workers chunk_size_mb w)
                           \<noteq> Inl (Exception (''S3 error: '' @ message')))
          \<and> (fst (download_from_s3 E key folder num_workers chunk_size_mb w)
                = Inl (Exception (''Failed to download from S3: '' @ message))
              \<and> files (snd (download_from_s3 E key folder num_workers chunk_size_mb w))
                  = (files w)(destination_path folder key := None)
              \<or> (fst (download_from_s3 E key folder num_workers chunk_size_mb w)
                    = Inl (IsADirectoryError (destination_path folder key))
                  \<or> (\<exists>t. fst (download_from_s3 E key folder num_workers chunk_size_mb w) = Inl (OSError t)
                         \<and> remove_error E (destination_path folder key) = Some t))
                \<and> files (snd (download_from_s3 E key folder num_workers chunk_size_mb w)) = files w'))
       \<and> (\<forall>z. head_object E b key = Inl z \<longrightarrow>
            y = z \<and> w' = w\<lparr>trace := trace w @ [HeadObject b key]\<rparr>)"
proof (intro conjI allI impI)
  let ?d = "destination_path folder key"
  let ?D = "download_from_s3 E key folder num_workers chunk_size_mb w"
  have d: "?D = except_handlers E b key ?d y w'"
    using assms(3) by (simp add: download_from_s3_bucket[OF assms(1,2)])
  from try_block_Inl[OF assms(3)]
  have f: "files w' = files w \<or> (\<exists>c t. files w' = (files w)(?d \<mapsto> c) \<and> y = OSError t)" .
  from try_block_trace[of E b key folder ?d num_workers chunk_size_mb w] assms(3) obtain evs where
    evs: "trace w' = trace w @ evs" "\<forall>d. Remove d \<notin> set evs" by auto
  show "''File not found in S3: s3://'' @ b @ ''/'' @ key \<noteq> ''S3 error: '' @ message'" for message'
    by simp
  {
    fix code message assume y: "y = ClientError code message"
    show "?D = (Inl (Exception (if code = ''404'' then ''File not found in S3: s3://'' @ b @ ''/'' @ key
                                 else ''S3 error: '' @ message)), w')"
      unfolding d y except_handlers_ClientError ..
    show "files w' = files w" using f y by (auto simp: OSError_def)
    show "Remove d \<notin> set (new_events w w')" for d
      using evs by (simp add: new_events_append[OF evs(1)])
  }
  {
    fix cls message assume y: "y = PyException cls message"
    have fd: "(files w')(?d := None) = (files w)(?d := None)" using f by auto
    have fc: "files (snd (cleanup E ?d w'))
                = (if fst (cleanup E ?d w') = None then (files w)(?d := None) else files w')"
      by (simp add: files_cleanup fd)
    have dd: "?D = (case fst (cleanup E ?d w') of
                      Some z \<Rightarrow> Inl z
                    | None \<Rightarrow> Inl (Exception (''Failed to download from S3: '' @ message)),
                    snd (cleanup E ?d w'))"
      unfolding d y except_handlers_PyException ..
    have r: "fst ?D = Inl (Exception (''Failed to download from S3: '' @ message))
             \<and> files (snd ?D) = (files w)(?d := None)
           \<or> (fst ?D = Inl (IsADirectoryError ?d)
              \<or> (\<exists>t. fst ?D = Inl (OSError t) \<and> remove_error E ?d = Some t))
             \<and> files (snd ?D) = files w'"
      unfolding dd
      by (cases rule: cleanup_cases[of w' ?d E]) (insert fc, simp_all)
    then show "fst ?D = Inl (Exception (''Failed to download from S3: '' @ message))
             \<and> files (snd ?D) = (files w)(?d := None)
           \<or> (fst ?D = Inl (IsADirectoryError ?d)
              \<or> (\<exists>t. fst ?D = Inl (OSError t) \<and> remove_error E ?d = Some t))
             \<and> files (snd ?D) = files w'" .
    from r show "fst ?D \<noteq> Inl (Exception (''File not found in S3: s3://'' @ b @ ''/'' @ key))"
      by auto
    from r show "fst ?D \<noteq> Inl (Exception (''S3 error: '' @ message'))" for message'
      by auto
  }
  {
    fix z assume "head_object E b key = Inl z"
    with assms(3) show "y = z" "w' = w\<lparr>trace := trace w @ [HeadObject b key]\<rparr>"
      by (simp_all add: try_block_eq)
  }
qed

text \<open>The size lookup is answered with the codes 404 and 403; the store cannot be reached;
  the key is reported missing when chunk 3 is read.\<close>

theorem not_found_distinguished_witness:
  "fst (download_from_s3 not_found_env ''models/a.bin'' ''/data'' 12 64 old_file_world)
     = Inl (Exception ''File not found in S3: s3://bucket/models/a.bin'')
   \<and> snd (download_from_s3 not_found_env ''models/a.bin'' ''/data'' 12 64 old_file_world)
     = old_file_world\<lparr>trace := [HeadObject ''bucket'' ''models/a.bin'']\<rparr>
   \<and> fst (download_from_s3 forbidden_env ''models/a.bin'' ''/data'' 12 64 old_file_world)
     = Inl (Exception ''S3 error: Forbidden'')
   \<and> snd (download_from_s3 forbidden_env ''models/a.bin'' ''/data'' 12 64 old_file_world)
     = old_file_world\<lparr>trace := [HeadObject ''bucket'' ''models/a.bin'']\<rparr>
   \<and> fst (download_from_s3 unreachable_env ''models/a.bin'' ''/data'' 12 64 old_file_world)
     = Inl (Exception ''Failed to download from S3: Could not connect to the endpoint URL'')
   \<and> files (snd (download_from_s3 unreachable_env ''models/a.bin'' ''/data'' 12 64 old_file_world))
     = Map.empty
   \<and> fst (download_from_s3 vanished_env ''models/a.bin'' ''/data'' 12 1 old_file_world)
     = Inl (Exception ''S3 error: The specified key does not exist.'')
   \<and> files (snd (download_from_s3 vanished_env ''models/a.bin'' ''/data'' 12 1 old_file_world))
     = files old_file_world"
proof -
  let ?w1 = "old_file_world\<lparr>trace := [HeadObject ''bucket'' ''models/a.bin'']\<rparr>"
  have t1: "try_block not_found_env ''bucket'' ''models/a.bin'' ''/data''
              (destination_path ''/data'' ''models/a.bin'') 12 64 old_file_world
            = (Inl (ClientError ''404'' ''Not Found''), ?w1)"
    by (simp add: try_block_eq not_found_env_def good_env_def old_file_world_def)
  have t2: "try_block forbidden_env ''bucket'' ''models/a.bin'' ''/data''
              (destination_path ''/data'' ''models/a.bin'') 12 64 old_file_world
            = (Inl (ClientError ''403'' ''Forbidden''), ?w1)"
    by (simp add: try_block_eq forbidden_env_def good_env_def old_file_world_def)
  have t3: "try_block unreachable_env ''bucket'' ''models/a.bin'' ''/data''
              (destination_path ''/data'' ''models/a.bin'') 12 64 old_file_world
            = (Inl (PyException ''EndpointConnectionError'' ''Could not connect to the endpoint URL''), ?w1)"
    by (simp add: try_block_eq unreachable_env_def good_env_def old_file_world_def)
  have t4: "try_block vanished_env ''bucket'' ''models/a.bin'' ''/data''
              (destination_path ''/data'' ''models/a.bin'') 12 1 old_file_world
            = (Inl (ClientError ''NoSuchKey'' ''The specified key does not exist.''),
               snd (try_block vanished_env ''bucket'' ''models/a.bin'' ''/data''
                      (destination_path ''/data'' ''models/a.bin'') 12 1 old_file_world))"
    using vanished_try_block by (simp add: prod_eq_iff dest_example)
  have b: "bucket not_found_env = Some ''bucket''" "bucket forbidden_env = Some ''bucket''"
    "bucket unreachable_env = Some ''bucket''" "bucket vanished_env = Some ''bucket''"
    "''bucket'' \<noteq> []"
    by (simp_all add: not_found_env_def forbidden_env_def unreachable_env_def vanished_env_def
          good_env_def)
  have u: "fst (download_from_s3 unreachable_env ''models/a.bin'' ''/data'' 12 64 old_file_world)
     = Inl (Exception ''Failed to download from S3: Could not connect to the endpoint URL'')"
    by (simp add: download_from_s3_def try_block_def except_handlers_def cleanup_def
          path_is_dir_def unreachable_env_def good_env_def log_def Let_def old_file_world_def
          dest_example)
  note 1 = not_found_distinguished[OF b(1,5) t1]
  note 2 = not_found_distinguished[OF b(2,5) t2]
  note 3 = not_found_distinguished[OF b(3,5) t3]
  note 4 = not_found_distinguished[OF b(4,5) t4]
  from 1 have g1: "download_from_s3 not_found_env ''models/a.bin'' ''/data'' 12 64 old_file_world
      = (Inl (Exception ''File not found in S3: s3://bucket/models/a.bin''), ?w1)" by simp
  from 2 have g2: "download_from_s3 forbidden_env ''models/a.bin'' ''/data'' 12 64 old_file_world
      = (Inl (Exception ''S3 error: Forbidden''), ?w1)" by simp
  from 3 u have g3: "files (snd (download_from_s3 unreachable_env ''models/a.bin'' ''/data'' 12 64
      old_file_world)) = Map.empty"
    by (simp add: dest_example old_file_world_def)
  from 4 have g4: "download_from_s3 vanished_env ''models/a.bin'' ''/data'' 12 1 old_file_world
      = (Inl (Exception ''S3 error: The specified key does not exist.''),
         snd (try_block vanished_env ''bucket'' ''models/a.bin'' ''/data''
                      (destination_path ''/data'' ''models/a.bin'') 12 1 old_file_world))"
    and g4': "files (snd (try_block vanished_env ''bucket'' ''models/a.bin'' ''/data''
                      (destination_path ''/data'' ''models/a.bin'') 12 1 old_file_world))
              = files old_file_world" by simp_all
  from g1 g2 g3 u g4 g4' show ?thesis by simp
qed


text \<open>
  Claim C8, as amended. A successful download, direct or chunked, returns \<^verbatim>\<open>None\<close>; its
  effect is the file written at \<^verbatim>\<open>os.path.join(destination_folder, basename(s3_key))\<close>, a
  path that is absolute only when the destination folder is, every other file being as
  before the call.
\<close>

theorem successful_download_returns_none:
  assumes "fst (download_from_s3 E key folder num_workers chunk_size_mb w) = Inr v"
  shows "v = None
       \<and> (\<exists>content. files (snd (download_from_s3 E key folder num_workers chunk_size_mb w))
                      = (files w)(destination_path folder key \<mapsto> content))"
proof (cases "\<exists>b. bucket E = Some b \<and> b \<noteq> []")
  case False
  then have "download_from_s3 E key folder num_workers chunk_size_mb w
             = (Inl (Exception ''S3_BUCKET environment variable not set''), w)"
    by (auto simp: download_from_s3_def split: option.splits)
  with assms show ?thesis by simp
next
  case True
  then obtain b where b: "bucket E = Some b" "b \<noteq> []" by blast
  let ?d = "destination_path folder key"
  obtain r w' where tb: "try_block E b key folder ?d num_workers chunk_size_mb w = (r, w')"
    by (cases "try_block E b key folder ?d num_workers chunk_size_mb w")
  from assms tb obtain u where r: "r = Inr u"
    by (cases r) (simp_all add: download_from_s3_bucket[OF b])
  have d: "download_from_s3 E key folder num_workers chunk_size_mb w = (Inr None, w')"
    using tb r by (simp add: download_from_s3_bucket[OF b])
  from try_block_Inr[OF tb[unfolded r]] d assms show ?thesis by simp
qed

lemma small_object_run:
  "fst (download_from_s3 (good_env ''bucket'' [1, 2, 3] []) ''models/a.bin'' ''/data'' 12 64 empty_world)
     = Inr None"
  "files (snd (download_from_s3 (good_env ''bucket'' [1, 2, 3] []) ''models/a.bin'' ''/data'' 12 64
                 empty_world))
     = [''/data/a.bin'' \<mapsto> [1, 2, 3]]"
  "trace (snd (download_from_s3 (good_env ''bucket'' [1, 2, 3] []) ''models/a.bin'' ''/data'' 12 64
                 empty_world))
     = [HeadObject ''bucket'' ''models/a.bin'', MakeDirs ''/data'',
        DownloadFile ''bucket'' ''models/a.bin'' ''/data/a.bin'']"
  by (simp_all add: download_from_s3_def try_block_def good_env_def log_def Let_def
        empty_world_def dest_example)

text \<open>
  Claim C8 as stated fails: a successful download returns \<^verbatim>\<open>None\<close>, not the path.
\<close>

theorem successful_download_returns_no_path:
  "fst (download_from_s3 (good_env ''bucket'' [1, 2, 3] []) ''models/a.bin'' ''/data'' 12 64 empty_world)
     = Inr None
   \<and> fst (download_from_s3 (good_env ''bucket'' [1, 2, 3] []) ''models/a.bin'' ''/data'' 12 64 empty_world)
     \<noteq> Inr (Some (destination_path ''/data'' ''models/a.bin''))"
  by (simp add: small_object_run)

theorem successful_download_returns_none_witness:
  "fst (download_from_s3 (good_env ''bucket'' [1, 2, 3] []) ''models/a.bin'' ''out'' 12 64 empty_world)
     = Inr None
   \<and> (\<exists>content. files (snd (download_from_s3 (good_env ''bucket'' [1, 2, 3] []) ''models/a.bin'' ''out'' 12 64
                     empty_world)) = [''out/a.bin'' \<mapsto> content])"
proof -
  have d: "destination_path ''out'' ''models/a.bin'' = ''out/a.bin''"
    by (simp add: destination_path_def basename_def path_join_def)
  have run: "fst (download_from_s3 (good_env ''bucket'' [1, 2, 3] []) ''models/a.bin'' ''out'' 12 64 empty_world)
     = Inr None"
    by (simp add: download_from_s3_def try_block_def good_env_def log_def Let_def)
  from successful_download_returns_none[OF run] run show ?thesis
    by (simp add: d empty_world_def)
qed

lemma OpenWrite_not_fetch_event [simp]:
  "OpenWrite d \<notin> fetch_event b key fs cs ` A"
  by (auto simp: fetch_event_def)

text \<open>
  Claim C9. In a chunked download with at least one requested worker: when some chunk fetch
  fails, the download fails, the destination file is never opened and the files are as
  before the call, up to the removal of the destination by the cleanup handler; so no new
  file is created. When every chunk fetch succeeds, the file is opened after the pool was
  created and all \<open>n\<close> ranged reads were made, and at that point \<^verbatim>\<open>parts\<close> holds \<open>n\<close>
  entries whose indices are a permutation of \<open>0..<n\<close>, sorted into ascending index with
  the data of each chunk.
\<close>

theorem file_written_only_after_all_chunks:
  assumes "bucket E = Some b" and "b \<noteq> []"
    and "head_object E b key = Inr file_size"
    and "makedirs E folder = None"
    and "0 < chunk_size_mb" and "chunk_size = chunk_size_mb * 1024 * 1024"
    and "chunk_size \<le> file_size" and "1 \<le> num_workers"
    and "num_chunks file_size chunk_size = Inr n"
  shows "((\<exists>i < nat n. isl (fetch E b key file_size chunk_size i)) \<longrightarrow>
            isl (fst (download_from_s3 E key folder num_workers chunk_size_mb w))
          \<and> OpenWrite (destination_path folder key)
              \<notin> set (new_events w (snd (download_from_s3 E key folder num_workers chunk_size_mb w)))
          \<and> (files (snd (download_from_s3 E key folder num_workers chunk_size_mb w)) = files w
             \<or> files (snd (download_from_s3 E key folder num_workers chunk_size_mb w))
                 = (files w)(destination_path folder key := None)))
       \<and> ((\<forall>i < nat n. \<not> isl (fetch E b key file_size chunk_size i)) \<longrightarrow>
            (\<exists>tail. new_events w (snd (download_from_s3 E key folder num_workers chunk_size_mb w))
                = [HeadObject b key, MakeDirs folder, PoolCreate (min num_workers n)]
                  @ map (fetch_event b key file_size chunk_size)
                        (completion_order (nat n) (completion E))
                  @ OpenWrite (destination_path folder key) # tail)
          \<and> mset (completion_order (nat n) (completion E)) = mset [0..<nat n]
          \<and> length (parts (run_pool E b key file_size chunk_size n w0)) = nat n
          \<and> mset (map fst (parts (run_pool E b key file_size chunk_size n w0))) = mset [0..<nat n]
          \<and> sort_key fst (parts (run_pool E b key file_size chunk_size n w0))
              = map (\<lambda>i. (i, projr (fetch E b key file_size chunk_size i))) [0..<nat n])"
proof (intro conjI impI)
  let ?d = "destination_path folder key"
  let ?D = "download_from_s3 E key folder num_workers chunk_size_mb w"
  let ?k = "actual_workers num_workers n"
  let ?order = "completion_order (nat n) (completion E)"
  let ?pre = "[HeadObject b key, MakeDirs folder, PoolCreate ?k]
                @ map (fetch_event b key file_size chunk_size) ?order"
  let ?w1 = "w\<lparr>dirs := dirs w \<union> dir_names folder, trace := trace w @ ?pre\<rparr>"
  have cs: "0 < chunk_size" using assms(5,6) by simp
  have n: "n = (file_size + chunk_size - 1) div chunk_size"
    using assms(9) cs by (simp add: num_chunks_def)
  have n1: "1 \<le> n" unfolding n using nc_pos[OF cs assms(7)] .
  have k: "0 < ?k" "?k = min num_workers n" using n1 assms(8) by (simp_all add: actual_workers_def)
  have nlt: "\<not> file_size < chunk_size_mb * 1024 * 1024" using assms(6,7) by simp
  note form = download_chunked[OF assms(1,2,3,4) nlt assms(6) assms(9) k(1), where w = w]
  {
    assume "\<exists>i < nat n. isl (fetch E b key file_size chunk_size i)"
    then have "first_failure E b key file_size chunk_size (nat n) \<noteq> None"
      by (simp add: first_failure_None)
    then obtain x where x: "first_failure E b key file_size chunk_size (nat n) = Some x" by blast
    have d: "?D = except_handlers E b key ?d x ?w1"
      by (simp add: form x Let_def)
    have "trace (snd ?D) = trace w @ ?pre @ handler_events E ?d x ?w1"
      by (simp add: d trace_except_handlers handler_events_def)
    from new_events_append[OF this]
    show "OpenWrite ?d \<notin> set (new_events w (snd ?D))" by simp
    show "isl (fst ?D)"
      by (simp add: d isl_except_handlers)
    show "files (snd ?D) = files w \<or> files (snd ?D) = (files w)(?d := None)"
      using files_except_handlers[of E b key ?d x ?w1] by (simp add: d)
  }
  {
    assume ok: "\<forall>i < nat n. \<not> isl (fetch E b key file_size chunk_size i)"
    then have ff: "first_failure E b key file_size chunk_size (nat n) = None"
      by (simp add: first_failure_None)
    have "\<exists>tail. trace (snd ?D) = trace w @ ?pre @ OpenWrite ?d # tail"
    proof (cases "open_wb E ?d")
      case (Some t)
      then show ?thesis
        by (simp add: form ff Let_def trace_except_handlers)
    next
      case None
      then show ?thesis
        by (simp add: form ff Let_def trace_except_handlers split: prod.split option.split)
    qed
    then obtain tail where "trace (snd ?D) = trace w @ ?pre @ OpenWrite ?d # tail" by blast
    from new_events_append[OF this]
    show "\<exists>tail. new_events w (snd ?D)
            = [HeadObject b key, MakeDirs folder, PoolCreate (min num_workers n)]
              @ map (fetch_event b key file_size chunk_size) ?order @ OpenWrite ?d # tail"
      using k(2) by simp
    show "mset ?order = mset [0..<nat n]" by (rule mset_completion_order)
    have p: "parts (run_pool E b key file_size chunk_size n w0)
             = map (\<lambda>i. (i, projr (fetch E b key file_size chunk_size i))) ?order"
      using parts_run_pool[OF ok] .
    show "length (parts (run_pool E b key file_size chunk_size n w0)) = nat n"
      using mset_eq_length[OF mset_completion_order[of "nat n" "completion E"]] by (simp add: p)
    show "mset (map fst (parts (run_pool E b key file_size chunk_size n w0))) = mset [0..<nat n]"
      by (simp add: p comp_def mset_completion_order)
    show "sort_key fst (parts (run_pool E b key file_size chunk_size n w0))
            = map (\<lambda>i. (i, projr (fetch E b key file_size chunk_size i))) [0..<nat n]"
      using sorted_parts_run_pool[OF ok] .
  }
qed

theorem file_written_only_after_all_chunks_witness:
  "isl (fst (download_from_s3 chunk3_timeout_env ''models/a.bin'' ''/data'' 12 1 empty_world))
   \<and> OpenWrite ''/data/a.bin''
       \<notin> set (new_events empty_world
                (snd (download_from_s3 chunk3_timeout_env ''models/a.bin'' ''/data'' 12 1 empty_world)))
   \<and> files (snd (download_from_s3 chunk3_timeout_env ''models/a.bin'' ''/data'' 12 1 empty_world))
        ''/data/a.bin'' = None
   \<and> length (parts (run_pool (good_env ''bucket'' big_object [2, 0, 1]) ''bucket'' ''models/a.bin''
        10485760 1048576 10 empty_world)) = 10"
proof -
  have nc: "num_chunks 10485760 1048576 = Inr 10" by (simp add: num_chunks_def)
  have cs: "(1048576::int) = 1 * 1024 * 1024" by simp
  have bad: "\<exists>i < nat 10. isl (fetch chunk3_timeout_env ''bucket'' ''models/a.bin'' 10485760 1048576 i)"
    by (intro exI[of _ 3]) (simp add: fetch_def chunk3_timeout_env_def good_env_def start_byte_def)
  have good: "\<forall>i < nat 10. \<not> isl (fetch (good_env ''bucket'' big_object [2, 0, 1]) ''bucket''
                 ''models/a.bin'' 10485760 1048576 i)"
    by (simp add: fetch_def good_env_def)
  have 1: "isl (fst (download_from_s3 chunk3_timeout_env ''models/a.bin'' ''/data'' 12 1 empty_world))
     \<and> OpenWrite (destination_path ''/data'' ''models/a.bin'')
         \<notin> set (new_events empty_world
                  (snd (download_from_s3 chunk3_timeout_env ''models/a.bin'' ''/data'' 12 1 empty_world)))
     \<and> (files (snd (download_from_s3 chunk3_timeout_env ''models/a.bin'' ''/data'' 12 1 empty_world))
          = files empty_world
        \<or> files (snd (download_from_s3 chunk3_timeout_env ''models/a.bin'' ''/data'' 12 1 empty_world))
          = (files empty_world)(destination_path ''/data'' ''models/a.bin'' := None))"
    using file_written_only_after_all_chunks[where E = chunk3_timeout_env and b = "''bucket''"
        and key = "''models/a.bin''" and file_size = 10485760 and folder = "''/data''"
        and chunk_size_mb = 1 and chunk_size = 1048576 and num_workers = 12 and n = 10
        and w = empty_world, OF _ _ _ _ _ cs _ _ nc] bad
    by (simp add: chunk3_timeout_env_def good_env_def length_big_object)
  have 2: "length (parts (run_pool (good_env ''bucket'' big_object [2, 0, 1]) ''bucket'' ''models/a.bin''
        10485760 1048576 10 empty_world)) = nat 10"
    using file_written_only_after_all_chunks[where E = "good_env ''bucket'' big_object [2, 0, 1]"
        and b = "''bucket''" and key = "''models/a.bin''" and file_size = 10485760
        and folder = "''/data''" and chunk_size_mb = 1 and chunk_size = 1048576
        and num_workers = 12 and n = 10 and w = empty_world and ?w0.0 = empty_world,
        OF _ _ _ _ _ cs _ _ nc] good
    by (simp add: good_env_def length_big_object)
  from 1 2 show ?thesis by (auto simp: dest_example empty_world_def)
qed


end
